theory Spec2Isabelle
  imports Complex_Main "HOL-Library.Word"
begin

section \<open>Data model of the capture pipeline (pcap-ffxiv.ts)\<close>

text \<open>
  A Node \<open>Buffer\<close> is a list of bytes. \<open>buf.slice(n)\<close> with \<open>0 \<le> n\<close> clamps at the
  end of the buffer, which is what \<^term>\<open>drop\<close> does.
\<close>

type_synonym byte = "8 word"
type_synonym buffer = "byte list"

text \<open>Values thrown by the JavaScript runtime, by Node's Buffer or by a decoder.\<close>

datatype js_error = TypeError | RangeError | OtherError string

text \<open>
  What \<open>parsedIpcData\<close> can hold: the record a packet processor decoded or, when the
  registry lookup lands on a member that the registry object inherits, what that member
  returns: the reader, the registry object itself, a string or a boolean.
\<close>

datatype 'p js_value =
    Decoded 'p
  | TheReader buffer
  | TheRegistry
  | JSString string
  | JSBoolean bool

datatype Region = Global | Chinese | Korean

text \<open>
  The header records. The field \<open>size\<close> of the source is \<open>frameSize\<close> in a frame
  header and \<open>segSize\<close> in a segment header; \<open>type\<close> of an IPC header is \<open>ipcType\<close>.
\<close>

record FrameHeader =
  magic :: buffer
  timestamp :: nat
  frameSize :: nat
  connectionType :: nat
  segmentCount :: nat
  isCompressed :: bool

datatype Operation = Send | Receive

record SegmentHeader =
  segSize :: nat
  sourceActor :: nat
  targetActor :: nat
  segmentType :: nat
  padding :: nat
  operation :: Operation

record IpcHeader =
  reserved :: nat
  ipcType :: nat
  serverId :: nat
  ipcTimestamp :: nat

record 'p Segment =
  header :: SegmentHeader
  ipcHeader :: "IpcHeader option"
  ipcData :: "buffer option"
  parsedIpcData :: "'p js_value option"

record Endpoint =
  address :: string
  port :: nat

record 'p ChildFrame =
  cf_header :: FrameHeader
  segments :: "'p Segment list"

record 'p Packet =
  source :: Endpoint
  destination :: Endpoint
  childFrame :: "'p ChildFrame"

text \<open>
  The events of \<open>CaptureInterfaceEvents\<close>, with their payloads. Listeners are taken to
  return: an exception thrown by a listener inside \<open>emit\<close> is not modelled.
\<close>

datatype 'p event =
    Ready
  | Error js_error
  | PacketEv "'p Packet"
  | SegmentEv "'p Segment"
  | Message string "'p Segment"
  | Diagnostics real

record OpcodeEntry =
  name :: string
  opcode :: nat

record OpcodeList =
  region :: Region
  ServerZoneIpcType :: "OpcodeEntry list"
  ClientZoneIpcType :: "OpcodeEntry list"

text \<open>
  A packet processor reads the IPC body through a \<open>BufferReader\<close> over \<open>ipcData\<close> and is
  handed \<open>this._constants[this._region]\<close>, which is \<open>undefined\<close> (\<open>None\<close>) when the
  constants table has no entry for the region. It returns a record or throws.

  A \<open>property\<close> is what \<open>this._packetDefs[typeName]\<close> finds, as the call of line 224 sees
  it: given the reader and the constants, it throws or returns a value, \<open>None\<close> for
  \<open>undefined\<close>.
\<close>

type_synonym ('c, 'p) PacketProcessor = "buffer \<Rightarrow> 'c option \<Rightarrow> js_error + 'p"

type_synonym ('c, 'p) property = "buffer \<Rightarrow> 'c option \<Rightarrow> js_error + 'p js_value option"

text \<open>
  The private fields of \<open>CaptureInterface\<close> (\<open>_opcodeLists\<close> is \<open>m_opcodeLists\<close>, and so
  on). \<open>undefined\<close> is \<open>None\<close>. A \<open>QueueBuffer\<close> of \<open>_bufTable\<close> is the list of the bytes
  it holds, oldest first.
\<close>

record ('c, 'p) CaptureInterface =
  m_opcodeLists :: "OpcodeList list option"
  m_constants :: "(Region \<rightharpoonup> 'c) option"
  m_packetDefs :: "string \<rightharpoonup> ('c, 'p) property"
  m_region :: Region
  m_opcodes :: "(nat \<rightharpoonup> string) option"
  m_bufTable :: "nat \<rightharpoonup> buffer"

text \<open>
  What \<open>pcap-ffxiv.ts\<close> imports and this development takes as given: the constants of
  \<open>constants.ts\<close>, \<open>SegmentType.Ipc\<close>, the header parsers and the magic test of
  \<open>frame-processing.ts\<close>, \<open>roundToNextPowerOf2\<close> of \<open>memory.ts\<close>, \<open>pako.inflate\<close>
  (\<open>Inl\<close> is the string it throws, \<open>Inr\<close> the bytes of \<open>decompressed.buffer\<close>), Node's
  \<open>buffer.kMaxLength\<close>, and the two readings of \<open>performance.now()\<close>. A parser may
  throw, so it returns a sum.
\<close>

record externals =
  FRAME_HEADER_SIZE :: nat
  SEG_HEADER_SIZE :: nat
  IPC_HEADER_SIZE :: nat
  SegmentType_Ipc :: nat
  parseFrameHeader :: "buffer \<Rightarrow> FrameHeader"
  isMagical :: "FrameHeader \<Rightarrow> bool"
  parseSegmentHeader :: "buffer \<Rightarrow> js_error + SegmentHeader"
  parseIpcHeader :: "buffer \<Rightarrow> js_error + IpcHeader"
  roundToNextPowerOf2 :: "int \<Rightarrow> int"
  inflate :: "buffer \<Rightarrow> string + buffer"
  kMaxLength :: int
  perf_start :: real
  perf_end :: real

section \<open>Node's Buffer operations used by the frame processor\<close>

text \<open>\<open>Buffer.alloc(n)\<close>: a zero-filled buffer, or a RangeError for a size out of range.\<close>

definition Buffer_alloc :: "int \<Rightarrow> int \<Rightarrow> js_error + buffer" where
  "Buffer_alloc maxLength n =
     (if n < 0 \<or> maxLength < n then Inl RangeError else Inr (replicate (nat n) 0))"

text \<open>
  \<open>src.copy(target, 0, sourceStart)\<close>: throws when \<open>sourceStart\<close> is beyond the source,
  otherwise overwrites the front of the target with as many bytes as the source has left
  and the target can take. The result is the target after the call.
\<close>

definition Buffer_copy :: "buffer \<Rightarrow> buffer \<Rightarrow> nat \<Rightarrow> js_error + buffer" where
  "Buffer_copy src target sourceStart =
     (if length src < sourceStart then Inl RangeError
      else (let chunk = take (length target) (drop sourceStart src)
            in Inr (chunk @ drop (length chunk) target)))"

section \<open>Message names\<close>

text \<open>\<open>c.toLowerCase()\<close> on one character, for the ASCII letters of an opcode name.\<close>

definition toLowerCase :: "char \<Rightarrow> char" where
  "toLowerCase c =
     (case map_of (zip ''ABCDEFGHIJKLMNOPQRSTUVWXYZ'' ''abcdefghijklmnopqrstuvwxyz'') c of
        Some l \<Rightarrow> l
      | None \<Rightarrow> c)"

text \<open>
  \<open>this._opcodes[type] || "unknown"\<close> followed by
  \<open>typeName[0].toLowerCase() + typeName.slice(1)\<close>. The empty string is falsy, so an
  empty entry gives \<open>"unknown"\<close> too, and the string indexed is never empty.
\<close>

definition lowerFirst :: "string \<Rightarrow> string" where
  "lowerFirst s = (case s of [] \<Rightarrow> [] | c # cs \<Rightarrow> toLowerCase c # cs)"

definition typeNameOf :: "(nat \<rightharpoonup> string) \<Rightarrow> nat \<Rightarrow> string" where
  "typeNameOf opcodes t =
     lowerFirst (case opcodes t of
                   None \<Rightarrow> ''unknown''
                 | Some n \<Rightarrow> if n = [] then ''unknown'' else n)"

section \<open>The decoder registry (load-packet-processors.ts)\<close>

definition processorNames :: "string list" where
  "processorNames =
     [''actorCast'', ''actorControl'', ''actorControlSelf'', ''actorControlTarget'',
      ''actorFreeSpawn'', ''actorGauge'', ''actorMove'', ''actorOwner'', ''actorSetPos'',
      ''blackList'', ''cFAvailableContents'', ''cFDutyInfo'', ''cFPlayerInNeed'',
      ''cFRegisterDuty'', ''charaVisualEffect'', ''clientTrigger'', ''currencyCrystalInfo'',
      ''desynthResult'', ''effectResult'', ''eorzeaTimeOffset'', ''equipDisplayFlags'',
      ''eventPlay'', ''eventPlay32'', ''eventPlay4'', ''eventPlay8'', ''eventPlayN'',
      ''freeCompanyUpdateShortMessage'', ''initZone'', ''inventoryModifyHandler'',
      ''inventoryTransaction'', ''itemInfo'', ''logMessage'', ''marketBoardItemListingCount'',
      ''marketBoardItemListingHistory'', ''marketBoardSearchResult'', ''marketTaxRates'',
      ''mount'', ''npcSpawn'', ''objectSpawn'', ''persistentEffect'', ''playerSetup'',
      ''playerSpawn'', ''playerStats'', ''playTime'', ''prepareZoning'', ''reductionResult'',
      ''retainerInformation'', ''serverNotice'', ''someDirectorUnk4'', ''statusEffectList'',
      ''updateClassInfo'', ''updateHpMpTp'', ''updateInventorySlot'',
      ''updatePositionHandler'', ''updatePositionInstance'', ''useMooch'', ''weatherChange'']"

text \<open>
  \<open>loadPacketProcessors()\<close> returns an object literal with one property per imported
  processor. The processors themselves live in files of their own; \<open>impl\<close> gives the
  function behind each name, and \<open>called f\<close> is the call of such a function, whose record
  becomes \<open>parsedIpcData\<close>.

  A lookup \<open>this._packetDefs[typeName]\<close> in an object literal also finds what every object
  inherits from \<open>Object.prototype\<close>. All twelve members are truthy, so line 224 calls them
  with the registry object as \<open>this\<close>, the reader and the constants:
  \<open>constructor\<close> returns its first argument, the reader; \<open>toString\<close> and
  \<open>toLocaleString\<close> return \<open>"[object Object]"\<close>; \<open>valueOf\<close> returns the registry object;
  \<open>hasOwnProperty\<close> and \<open>propertyIsEnumerable\<close> test the key that the reader converts to,
  and \<open>isPrototypeOf\<close> the reader, and answer false (the reader is taken to have no
  \<open>toString\<close> of its own, so that its key is \<open>"[object Object]"\<close>); \<open>__lookupGetter__\<close> and
  \<open>__lookupSetter__\<close> return \<open>undefined\<close>; \<open>__defineGetter__\<close> and \<open>__defineSetter__\<close>
  throw a TypeError, the constants being no function; and \<open>__proto__\<close> is an object and no
  function, so that calling it is a TypeError.
\<close>

definition called :: "('c, 'p) PacketProcessor \<Rightarrow> ('c, 'p) property" where
  "called f reader constants =
     (case f reader constants of Inl e \<Rightarrow> Inl e | Inr v \<Rightarrow> Inr (Some (Decoded v)))"

definition Object_prototype :: "string \<rightharpoonup> ('c, 'p) property" where
  "Object_prototype =
     map_of
       [(''constructor'', \<lambda>reader constants. Inr (Some (TheReader reader))),
        (''toString'', \<lambda>reader constants. Inr (Some (JSString ''[object Object]''))),
        (''toLocaleString'', \<lambda>reader constants. Inr (Some (JSString ''[object Object]''))),
        (''valueOf'', \<lambda>reader constants. Inr (Some TheRegistry)),
        (''hasOwnProperty'', \<lambda>reader constants. Inr (Some (JSBoolean False))),
        (''isPrototypeOf'', \<lambda>reader constants. Inr (Some (JSBoolean False))),
        (''propertyIsEnumerable'', \<lambda>reader constants. Inr (Some (JSBoolean False))),
        (''__lookupGetter__'', \<lambda>reader constants. Inr None),
        (''__lookupSetter__'', \<lambda>reader constants. Inr None),
        (''__defineGetter__'', \<lambda>reader constants. Inl TypeError),
        (''__defineSetter__'', \<lambda>reader constants. Inl TypeError),
        (''__proto__'', \<lambda>reader constants. Inl TypeError)]"

definition prototypeNames :: "string list" where
  "prototypeNames =
     [''constructor'', ''toString'', ''toLocaleString'', ''valueOf'', ''hasOwnProperty'',
      ''isPrototypeOf'', ''propertyIsEnumerable'', ''__lookupGetter__'', ''__lookupSetter__'',
      ''__defineGetter__'', ''__defineSetter__'', ''__proto__'']"

definition loadPacketProcessors ::
  "(string \<Rightarrow> ('c, 'p) PacketProcessor) \<Rightarrow> (string \<rightharpoonup> ('c, 'p) property)" where
  "loadPacketProcessors impl =
     (\<lambda>n. if n \<in> set processorNames then Some (called (impl n)) else Object_prototype n)"

section \<open>The frame processor (\<open>_processFrame\<close>)\<close>

text \<open>
  Lines 200 to 207: the IPC header and the IPC body of a segment. The body is copied out
  of \<open>ipcPayload\<close>, which runs to the end of the frame body, into a fresh buffer of
  \<open>roundToNextPowerOf2(size - SEG_HEADER_SIZE - IPC_HEADER_SIZE)\<close> bytes.
\<close>

definition readIpc ::
  "externals \<Rightarrow> buffer \<Rightarrow> nat \<Rightarrow> SegmentHeader \<Rightarrow> js_error + (IpcHeader option \<times> buffer option)" where
  "readIpc X remainder offset segmentHeader =
     (if segmentType segmentHeader = SegmentType_Ipc X then
        (let ipcPayload = drop (offset + SEG_HEADER_SIZE X) remainder in
         case parseIpcHeader X ipcPayload of
           Inl e \<Rightarrow> Inl e
         | Inr ih \<Rightarrow>
             (case Buffer_alloc (kMaxLength X)
                     (roundToNextPowerOf2 X
                        (int (segSize segmentHeader) - int (SEG_HEADER_SIZE X) - int (IPC_HEADER_SIZE X))) of
                Inl e \<Rightarrow> Inl e
              | Inr blank \<Rightarrow>
                  (case Buffer_copy ipcPayload blank (IPC_HEADER_SIZE X) of
                     Inl e \<Rightarrow> Inl e
                   | Inr d \<Rightarrow> Inr (Some ih, Some d))))
      else Inr (None, None))"

text \<open>
  Lines 221 to 225: what the lookup finds under the name is called when it finds
  something and the constants are loaded, and what the call returns is stored in
  \<open>parsedIpcData\<close>; what it throws is not caught. \<open>ipcData\<close> is always there for an IPC
  segment (the source asserts it with \<open>ipcData!\<close>).
\<close>

definition unmarshal ::
  "('c, 'p) CaptureInterface \<Rightarrow> string \<Rightarrow> 'p Segment \<Rightarrow> js_error + 'p Segment" where
  "unmarshal this typeName segment =
     (case (m_packetDefs this typeName, m_constants this) of
        (Some property, Some constants) \<Rightarrow>
          (case ipcData segment of
             None \<Rightarrow> Inl TypeError
           | Some d \<Rightarrow>
               (case property d (constants (m_region this)) of
                  Inl e \<Rightarrow> Inl e
                | Inr parsed \<Rightarrow> Inr (segment\<lparr>parsedIpcData := parsed\<rparr>)))
      | _ \<Rightarrow> Inr segment)"

text \<open>
  One turn of the loop of lines 196 to 233, at the given offset: the events it emits,
  and the segment it pushed or the exception that ended it. Indexing \<open>this._opcodes\<close>
  when it is \<open>undefined\<close> is a TypeError.
\<close>

definition processSegment ::
  "externals \<Rightarrow> ('c, 'p) CaptureInterface \<Rightarrow> buffer \<Rightarrow> nat \<Rightarrow> 'p event list \<times> (js_error + 'p Segment)" where
  "processSegment X this remainder offset =
     (case parseSegmentHeader X (drop offset remainder) of
        Inl e \<Rightarrow> ([], Inl e)
      | Inr segmentHeader \<Rightarrow>
          (case readIpc X remainder offset segmentHeader of
             Inl e \<Rightarrow> ([], Inl e)
           | Inr (ih, d) \<Rightarrow>
               (let segment = \<lparr>header = segmentHeader, ipcHeader = ih, ipcData = d,
                                parsedIpcData = None\<rparr> in
                case ih of
                  None \<Rightarrow> ([SegmentEv segment], Inr segment)
                | Some h \<Rightarrow>
                    (case m_opcodes this of
                       None \<Rightarrow> ([], Inl TypeError)
                     | Some opcodes \<Rightarrow>
                         (let typeName = typeNameOf opcodes (ipcType h) in
                          case unmarshal this typeName segment of
                            Inl e \<Rightarrow> ([], Inl e)
                          | Inr segment' \<Rightarrow>
                              ([Message typeName segment', SegmentEv segment'], Inr segment'))))))"

text \<open>
  The loop itself: \<open>n\<close> turns are left, starting at \<open>offset\<close>. It returns the events
  emitted and the segments pushed, or the exception that left the loop.
\<close>

fun segmentLoop ::
  "externals \<Rightarrow> ('c, 'p) CaptureInterface \<Rightarrow> buffer \<Rightarrow> nat \<Rightarrow> nat \<Rightarrow>
     'p event list \<times> (js_error + 'p Segment list)" where
  "segmentLoop X this remainder 0 offset = ([], Inr [])"
| "segmentLoop X this remainder (Suc n) offset =
     (case processSegment X this remainder offset of
        (evs, Inl e) \<Rightarrow> (evs, Inl e)
      | (evs, Inr segment) \<Rightarrow>
          (case segmentLoop X this remainder n (offset + segSize (header segment)) of
             (evs', Inl e) \<Rightarrow> (evs @ evs', Inl e)
           | (evs', Inr segs) \<Rightarrow> (evs @ evs', Inr (segment # segs))))"

text \<open>
  Lines 182 to 193. \<open>None\<close> is the early return on \<open>"incorrect header check"\<close>; any
  other inflate error leaves \<open>remainder\<close> as it was, the body still compressed.
\<close>

definition decompress :: "externals \<Rightarrow> FrameHeader \<Rightarrow> buffer \<Rightarrow> buffer option" where
  "decompress X frameHeader buf =
     (let remainder = drop (FRAME_HEADER_SIZE X) buf in
      if isCompressed frameHeader then
        (case inflate X remainder of
           Inr decompressed \<Rightarrow> Some decompressed
         | Inl err \<Rightarrow> if err = ''incorrect header check'' then None else Some remainder)
      else Some remainder)"

datatype outcome = Completed | Dropped | Threw js_error

definition processFrame ::
  "externals \<Rightarrow> ('c, 'p) CaptureInterface \<Rightarrow> FrameHeader \<Rightarrow> buffer \<Rightarrow>
     string \<Rightarrow> string \<Rightarrow> nat \<Rightarrow> nat \<Rightarrow> 'p event list \<times> outcome" where
  "processFrame X this frameHeader buf srcAddr dstAddr srcPort dstPort =
     (case decompress X frameHeader buf of
        None \<Rightarrow> ([], Dropped)
      | Some remainder \<Rightarrow>
          (case segmentLoop X this remainder (segmentCount frameHeader) 0 of
             (evs, Inl e) \<Rightarrow> (evs, Threw e)
           | (evs, Inr segs) \<Rightarrow>
               (evs @
                [PacketEv \<lparr>source = \<lparr>address = srcAddr, port = srcPort\<rparr>,
                           destination = \<lparr>address = dstAddr, port = dstPort\<rparr>,
                           childFrame = \<lparr>cf_header = frameHeader, segments = segs\<rparr>\<rparr>,
                 Diagnostics (perf_end X - perf_start X)],
                Completed)))"

section \<open>The frame reassembler (\<open>_registerInternalHandlers\<close>, lines 139 to 152)\<close>

text \<open>
  Modelled from the spec: \<open>QueueBuffer.ts\<close> is not among the sources. Section 4.2 gives
  its contract: \<open>push\<close> appends, \<open>peek(n)\<close> is the next \<open>n\<close> bytes or null when fewer are
  buffered, \<open>pop(n)\<close> returns and consumes \<open>n\<close> bytes. The capacity bound is left out.
\<close>

definition QueueBuffer_push :: "buffer \<Rightarrow> buffer \<Rightarrow> buffer" where
  "QueueBuffer_push q bytes = q @ bytes"

definition QueueBuffer_size :: "buffer \<Rightarrow> nat" where
  "QueueBuffer_size q = length q"

definition QueueBuffer_peek :: "buffer \<Rightarrow> nat \<Rightarrow> buffer option" where
  "QueueBuffer_peek q n = (if length q < n then None else Some (take n q))"

definition QueueBuffer_pop :: "buffer \<Rightarrow> nat \<Rightarrow> buffer \<times> buffer" where
  "QueueBuffer_pop q n = (take n q, drop n q)"

text \<open>
  Modelled from the spec: \<open>tryGetFrameHeader\<close> of \<open>frame-processing.ts\<close> is not among
  the sources. Section 4.3: it peeks \<open>FRAME_HEADER_SIZE\<close> bytes, returns null if fewer are
  buffered, else the parsed header, without consuming.
\<close>

definition tryGetFrameHeader :: "externals \<Rightarrow> buffer \<Rightarrow> FrameHeader option" where
  "tryGetFrameHeader X q =
     (case QueueBuffer_peek q (FRAME_HEADER_SIZE X) of
        None \<Rightarrow> None
      | Some b \<Rightarrow> Some (parseFrameHeader X b))"

text \<open>
  The \<open>while\<close> loop of lines 143 to 152 over the queue of one flow. It returns the events
  emitted so far, the queue as the loop leaves it, and the exception of \<open>_processFrame\<close>
  that left the loop, if one did. Nothing bounds the number of turns (a magical header
  of size 0 is popped for ever), so a run that does not return is \<open>None\<close>.
\<close>

partial_function (option) drainFrames ::
  "externals \<Rightarrow> ('c, 'p) CaptureInterface \<Rightarrow> string \<Rightarrow> string \<Rightarrow> nat \<Rightarrow> nat \<Rightarrow>
     buffer \<Rightarrow> 'p event list \<Rightarrow> ('p event list \<times> buffer \<times> js_error option) option" where
  "drainFrames X this srcAddr dstAddr srcPort dstPort q acc =
     (case tryGetFrameHeader X q of
        None \<Rightarrow> Some (acc, q, None)
      | Some frameHeader \<Rightarrow>
          if isMagical X frameHeader \<and> frameSize frameHeader \<le> QueueBuffer_size q then
            (case QueueBuffer_pop q (frameSize frameHeader) of
               (buf, q') \<Rightarrow>
                 (case processFrame X this frameHeader buf srcAddr dstAddr srcPort dstPort of
                    (evs, Threw e) \<Rightarrow> Some (acc @ evs, q', Some e)
                  | (evs, _) \<Rightarrow>
                      drainFrames X this srcAddr dstAddr srcPort dstPort q' (acc @ evs)))
          else Some (acc, q, None))"

text \<open>
  Lines 139 to 152: the payload of a TCP PSH packet is pushed to the queue of its
  destination port (created empty on first sight) and the queue is drained.
\<close>

definition getBuffer :: "('c, 'p) CaptureInterface \<Rightarrow> nat \<Rightarrow> buffer" where
  "getBuffer this p = (case m_bufTable this p of None \<Rightarrow> [] | Some q \<Rightarrow> q)"

definition onPayload ::
  "externals \<Rightarrow> ('c, 'p) CaptureInterface \<Rightarrow> string \<Rightarrow> string \<Rightarrow> nat \<Rightarrow> nat \<Rightarrow> buffer \<Rightarrow>
     (('c, 'p) CaptureInterface \<times> 'p event list \<times> js_error option) option" where
  "onPayload X this srcAddr dstAddr srcPort dstPort childFramePayload =
     (case drainFrames X this srcAddr dstAddr srcPort dstPort
             (QueueBuffer_push (getBuffer this dstPort) childFramePayload) [] of
        None \<Rightarrow> None
      | Some (evs, q, err) \<Rightarrow> Some (this\<lparr>m_bufTable := (m_bufTable this)(dstPort \<mapsto> q)\<rparr>, evs, err))"

section \<open>The opcode index (\<open>updateOpcodesCache\<close>, \<open>setRegion\<close>)\<close>

text \<open>
  Both optional chains of \<open>updateOpcodesCache\<close> give \<open>undefined\<close> when the lists are not
  loaded or none is for the region, and \<open>undefined\<close> is then stored in \<open>_opcodes\<close>.
  Otherwise the two lists are concatenated and folded into an object, a later entry
  overwriting an earlier one with the same opcode.
\<close>

definition updateOpcodesCache :: "('c, 'p) CaptureInterface \<Rightarrow> ('c, 'p) CaptureInterface" where
  "updateOpcodesCache this =
     (let regionOpcodes =
            (case m_opcodeLists this of
               None \<Rightarrow> None
             | Some ols \<Rightarrow> find (\<lambda>ol. region ol = m_region this) ols)
      in this\<lparr>m_opcodes :=
                (case regionOpcodes of
                   None \<Rightarrow> None
                 | Some ro \<Rightarrow>
                     Some (foldl (\<lambda>acc entry. acc(opcode entry \<mapsto> name entry)) Map.empty
                             (ServerZoneIpcType ro @ ClientZoneIpcType ro)))\<rparr>)"

definition setRegion :: "Region \<Rightarrow> ('c, 'p) CaptureInterface \<Rightarrow> ('c, 'p) CaptureInterface" where
  "setRegion r this = updateOpcodesCache (this\<lparr>m_region := r\<rparr>)"

section \<open>Construction, loading and the \<open>ready\<close> event\<close>

text \<open>
  The constructor starts the promise chain of lines 64 to 67: the opcode lists are
  downloaded and cached, then the constants are downloaded, then \<open>ready\<close> is emitted.
  \<open>phase\<close> is the point the chain has reached. \<open>CaptureInterface\<close> inherits \<open>on\<close> and
  \<open>emit\<close> from Node's \<open>EventEmitter\<close> unchanged: \<open>on\<close> appends a listener, \<open>emit\<close> calls
  the listeners registered for the event at that moment, in order. \<open>emitted\<close> lists the
  events emitted, \<open>delivered\<close> the calls made, as (listener, event).
\<close>

datatype loadPhase = LoadingOpcodes | LoadingConstants | Loaded | LoadFailed

record ('c, 'p) live =
  capture :: "('c, 'p) CaptureInterface"
  phase :: loadPhase
  listeners :: "(string \<times> nat) list"
  emitted :: "string list"
  delivered :: "(nat \<times> string) list"

definition new_CaptureInterface ::
  "(string \<Rightarrow> ('c, 'p) PacketProcessor) \<Rightarrow> Region \<Rightarrow> ('c, 'p) live" where
  "new_CaptureInterface impl r =
     \<lparr>capture = \<lparr>m_opcodeLists = None, m_constants = None,
                 m_packetDefs = loadPacketProcessors impl, m_region = r,
                 m_opcodes = Some Map.empty, m_bufTable = Map.empty\<rparr>,
      phase = LoadingOpcodes, listeners = [], emitted = [], delivered = []\<rparr>"

definition emit :: "string \<Rightarrow> ('c, 'p) live \<Rightarrow> ('c, 'p) live" where
  "emit ev i =
     i\<lparr>emitted := emitted i @ [ev],
       delivered := delivered i @ map (\<lambda>(n, l). (l, ev)) (filter (\<lambda>(n, l). n = ev) (listeners i))\<rparr>"

definition on :: "string \<Rightarrow> nat \<Rightarrow> ('c, 'p) live \<Rightarrow> ('c, 'p) live" where
  "on ev l i = i\<lparr>listeners := listeners i @ [(ev, l)]\<rparr>"

text \<open>
  What can happen to an instance: a download settles, a consumer subscribes, the region is
  set. A download can only settle in the phase that awaits it; elsewhere the step is
  \<open>None\<close>. A failed download rejects the chain, and nothing follows it.
\<close>

datatype 'c action =
    OpcodesArrive "OpcodeList list"
  | ConstantsArrive "Region \<rightharpoonup> 'c"
  | DownloadFails
  | On string nat
  | SetRegion Region

fun step :: "('c, 'p) live \<Rightarrow> 'c action \<Rightarrow> ('c, 'p) live option" where
  "step i (OpcodesArrive ols) =
     (if phase i = LoadingOpcodes then
        Some (i\<lparr>capture := updateOpcodesCache ((capture i)\<lparr>m_opcodeLists := Some ols\<rparr>),
                phase := LoadingConstants\<rparr>)
      else None)"
| "step i (ConstantsArrive c) =
     (if phase i = LoadingConstants then
        Some (emit ''ready'' (i\<lparr>capture := (capture i)\<lparr>m_constants := Some c\<rparr>, phase := Loaded\<rparr>))
      else None)"
| "step i DownloadFails =
     (if phase i = LoadingOpcodes \<or> phase i = LoadingConstants then Some (i\<lparr>phase := LoadFailed\<rparr>)
      else None)"
| "step i (On ev l) = Some (on ev l i)"
| "step i (SetRegion r) = Some (i\<lparr>capture := setRegion r (capture i)\<rparr>)"

fun run :: "('c, 'p) live \<Rightarrow> 'c action list \<Rightarrow> ('c, 'p) live option" where
  "run i [] = Some i"
| "run i (a # as) = (case step i a of None \<Rightarrow> None | Some i' \<Rightarrow> run i' as)"

section \<open>Vocabulary of the statements\<close>

text \<open>
  What one turn of the segment loop is expected to emit for a segment: the message event
  with a name, only for an IPC segment, and then the segment event.
\<close>

definition expectedEvents :: "externals \<Rightarrow> string \<Rightarrow> 'p Segment \<Rightarrow> 'p event list" where
  "expectedEvents X typeName s =
     (if segmentType (header s) = SegmentType_Ipc X then [Message typeName s, SegmentEv s]
      else [SegmentEv s])"

text \<open>A segment that is not IPC carries no IPC header, no IPC data and no parsed data.\<close>

definition nonIpcBare :: "externals \<Rightarrow> 'p Segment \<Rightarrow> bool" where
  "nonIpcBare X s =
     (segmentType (header s) \<noteq> SegmentType_Ipc X \<longrightarrow>
        ipcHeader s = None \<and> ipcData s = None \<and> parsedIpcData s = None)"

text \<open>
  On-wire order: the header of each segment is the one parsed at the offset where the
  segment before it ends, the first at the given offset.
\<close>

fun offsets :: "nat \<Rightarrow> 'p Segment list \<Rightarrow> nat list" where
  "offsets offset [] = []"
| "offsets offset (s # ss) = offset # offsets (offset + segSize (header s)) ss"

definition parsedInOrder :: "externals \<Rightarrow> buffer \<Rightarrow> nat \<Rightarrow> 'p Segment list \<Rightarrow> bool" where
  "parsedInOrder X remainder offset segs =
     list_all2 (\<lambda>off s. parseSegmentHeader X (drop off remainder) = Inr (header s))
       (offsets offset segs) segs"

definition isSegmentEv :: "'p event \<Rightarrow> bool" where
  "isSegmentEv ev = (case ev of SegmentEv s \<Rightarrow> True | _ \<Rightarrow> False)"

definition endOf :: "'p Segment list \<Rightarrow> nat" where
  "endOf segs = sum_list (map (\<lambda>s. segSize (header s)) segs)"

text \<open>
  A complete magical frame at the front of a queue: its bytes hold a whole header, the
  header is magical and its size is the length of the frame. \<open>returned\<close> says that
  \<open>_processFrame\<close> came back (it completed or returned early) rather than threw. A queue
  \<open>waits\<close> when the loop condition of line 143 fails on it.
\<close>

definition frameOf :: "externals \<Rightarrow> buffer \<Rightarrow> FrameHeader" where
  "frameOf X f = parseFrameHeader X (take (FRAME_HEADER_SIZE X) f)"

definition completeFrame :: "externals \<Rightarrow> buffer \<Rightarrow> bool" where
  "completeFrame X f =
     (FRAME_HEADER_SIZE X \<le> length f \<and> 0 < length f \<and> isMagical X (frameOf X f) \<and>
      frameSize (frameOf X f) = length f)"

definition returned :: "'p event list \<times> outcome \<Rightarrow> bool" where
  "returned r = (case snd r of Threw e \<Rightarrow> False | _ \<Rightarrow> True)"

definition waits :: "externals \<Rightarrow> buffer \<Rightarrow> bool" where
  "waits X q =
     (length q < FRAME_HEADER_SIZE X \<or> \<not> isMagical X (frameOf X q) \<or>
      length q < frameSize (frameOf X q))"

text \<open>
  The actions that are no settling of a download: subscribing and setting the region.
  \<open>subscribers ev acts\<close> are the listeners that the actions register for \<open>ev\<close>, in order.
\<close>

definition isPassive :: "'c action \<Rightarrow> bool" where
  "isPassive a = (case a of On ev l \<Rightarrow> True | SetRegion r \<Rightarrow> True | _ \<Rightarrow> False)"

fun subscribers :: "string \<Rightarrow> 'c action list \<Rightarrow> nat list" where
  "subscribers ev [] = []"
| "subscribers ev (On ev' l # acts) =
     (if ev' = ev then l # subscribers ev acts else subscribers ev acts)"
| "subscribers ev (a # acts) = subscribers ev acts"

definition observe ::
  "('c, 'p) live \<Rightarrow> loadPhase \<times> string list \<times> (string \<times> nat) list \<times> (nat \<times> string) list" where
  "observe i = (phase i, emitted i, listeners i, delivered i)"

section \<open>A concrete setting for the examples\<close>

text \<open>
  Modelled from the spec: the header parsers and \<open>isMagical\<close> of \<open>frame-processing.ts\<close>,
  \<open>roundToNextPowerOf2\<close> of \<open>memory.ts\<close> and the constants of \<open>constants.ts\<close> are not
  among the sources. The spec says that the parsers read a fixed little-endian layout from
  offset 0 of the slice, in the field order of section 3, that a frame of header only has
  40 bytes, that two magic values are accepted, and that the IPC body goes into a buffer
  sized to the next power of two. The field widths, the value of \<open>SegmentType.Ipc\<close>, the
  magic bytes and a RangeError on a slice shorter than the header (as Node's
  \<open>readUInt32LE\<close> gives) are the choices of this example; the direction of a segment is
  not read from the bytes. The general theorems do not depend on any of them.
\<close>

definition le :: "buffer \<Rightarrow> nat" where
  "le bs = foldr (\<lambda>b n. unat b + 256 * n) bs 0"

definition field :: "buffer \<Rightarrow> nat \<Rightarrow> nat \<Rightarrow> nat" where
  "field b offset w = le (take w (drop offset b))"

definition example_parseFrameHeader :: "buffer \<Rightarrow> FrameHeader" where
  "example_parseFrameHeader b =
     \<lparr>magic = take 16 b, timestamp = field b 16 8, frameSize = field b 24 4,
      connectionType = field b 28 2, segmentCount = field b 30 2,
      isCompressed = (field b 33 1 \<noteq> 0)\<rparr>"

definition example_isMagical :: "FrameHeader \<Rightarrow> bool" where
  "example_isMagical h =
     (magic h = [0x52, 0x52, 0xa0, 0x41, 0xff, 0x5d, 0x46, 0xe2,
                 0x7f, 0x2a, 0x64, 0x4d, 0x7b, 0x99, 0xc4, 0x75]
      \<or> magic h = replicate 16 0)"

definition example_parseSegmentHeader :: "buffer \<Rightarrow> js_error + SegmentHeader" where
  "example_parseSegmentHeader b =
     (if length b < 16 then Inl RangeError
      else Inr \<lparr>segSize = field b 0 4, sourceActor = field b 4 4, targetActor = field b 8 4,
                segmentType = field b 12 2, padding = field b 14 2, operation = Receive\<rparr>)"

definition example_parseIpcHeader :: "buffer \<Rightarrow> js_error + IpcHeader" where
  "example_parseIpcHeader b =
     (if length b < 16 then Inl RangeError
      else Inr \<lparr>reserved = field b 0 2, ipcType = field b 2 2, serverId = field b 6 2,
                ipcTimestamp = field b 8 4\<rparr>)"

function leastPowerOf2 :: "nat \<Rightarrow> nat \<Rightarrow> nat" where
  "leastPowerOf2 k n = (if n \<le> k \<or> k = 0 then k else leastPowerOf2 (2 * k) n)"
  by pat_completeness auto
termination
  by (relation "measure (\<lambda>(k, n). n - k)") auto

definition example_roundToNextPowerOf2 :: "int \<Rightarrow> int" where
  "example_roundToNextPowerOf2 n = int (leastPowerOf2 1 (nat n))"

text \<open>
  \<open>pako.inflate\<close> is a library function; an example fixes what it does with the body at
  hand. \<open>inflateThrows msg\<close> is an inflate that rejects the body with that message. The
  two compressed example frames below have bodies that zlib rejects in these ways:
  \<open>01 02 03\<close> fails the header check (\<open>0x0102\<close> is not a multiple of 31), and
  \<open>78 9c 07\<close> is a valid zlib header followed by a block of the reserved type 3, an
  \<open>"invalid block type"\<close>.
\<close>

definition inflateThrows :: "string \<Rightarrow> buffer \<Rightarrow> string + buffer" where
  "inflateThrows msg body = Inl msg"

definition exampleX :: externals where
  "exampleX =
     \<lparr>FRAME_HEADER_SIZE = 40, SEG_HEADER_SIZE = 16, IPC_HEADER_SIZE = 16, SegmentType_Ipc = 3,
      parseFrameHeader = example_parseFrameHeader, isMagical = example_isMagical,
      parseSegmentHeader = example_parseSegmentHeader, parseIpcHeader = example_parseIpcHeader,
      roundToNextPowerOf2 = example_roundToNextPowerOf2,
      inflate = inflateThrows ''incorrect header check'',
      kMaxLength = 4294967296, perf_start = 0, perf_end = 1\<rparr>"

definition badInflateX :: externals where
  "badInflateX = exampleX\<lparr>inflate := inflateThrows ''invalid block type''\<rparr>"

text \<open>
  The processors are in files of their own, and only \<open>npcSpawn.ts\<close> is among the sources.
  \<open>firstUInt32\<close> returns the first field, as \<open>npcSpawn\<close> begins with
  \<open>reader.nextUInt32()\<close>; \<open>processorThrows e\<close> is a processor that throws \<open>e\<close>. In
  \<open>reading\<close> every registered name has the first, in \<open>throwing\<close> the second.
\<close>

definition firstUInt32 :: "(nat, nat) PacketProcessor" where
  "firstUInt32 reader constants = Inr (field reader 0 4)"

definition processorThrows :: "js_error \<Rightarrow> (nat, nat) PacketProcessor" where
  "processorThrows e reader constants = Inl e"

definition reading :: "string \<Rightarrow> (nat, nat) PacketProcessor" where
  "reading n = firstUInt32"

definition throwing :: "string \<Rightarrow> (nat, nat) PacketProcessor" where
  "throwing n = processorThrows (OtherError ''decoder failed'')"

text \<open>
  Downloaded tables, and an instance after both downloads with region Global: its opcode
  map is the one \<open>updateOpcodesCache\<close> builds from the lists.
\<close>

definition exampleLists :: "OpcodeList list" where
  "exampleLists =
     [\<lparr>region = Global,
       ServerZoneIpcType = [\<lparr>name = ''NpcSpawn'', opcode = 298\<rparr>,
                            \<lparr>name = ''PlayerSpawn'', opcode = 299\<rparr>],
       ClientZoneIpcType = [\<lparr>name = ''ClientTrigger'', opcode = 400\<rparr>]\<rparr>,
      \<lparr>region = Chinese,
       ServerZoneIpcType = [\<lparr>name = ''NpcSpawn'', opcode = 531\<rparr>],
       ClientZoneIpcType = []\<rparr>]"

definition exampleConstants :: "Region \<rightharpoonup> nat" where
  "exampleConstants = (\<lambda>r. if r = Global then Some 0 else None)"

definition exampleOpcodes :: "nat \<rightharpoonup> string" where
  "exampleOpcodes = [298 \<mapsto> ''NpcSpawn'', 299 \<mapsto> ''PlayerSpawn'', 400 \<mapsto> ''ClientTrigger'']"

definition exampleThis ::
  "(string \<Rightarrow> (nat, nat) PacketProcessor) \<Rightarrow> (nat, nat) CaptureInterface" where
  "exampleThis impl =
     \<lparr>m_opcodeLists = Some exampleLists, m_constants = Some exampleConstants,
      m_packetDefs = loadPacketProcessors impl, m_region = Global,
      m_opcodes = Some exampleOpcodes, m_bufTable = Map.empty\<rparr>"

text \<open>
  Example bytes. A frame header: 16 bytes of magic (zeros, the keepalive magic), 8 of
  timestamp, the size, the connection type, the segment count, a byte, the compression
  flag, 6 bytes. An IPC segment of 36 bytes with opcode 298 (\<open>0x012a\<close>) and a body of 4
  bytes; the same with opcode 9, which no list has; a keepalive segment of 16 bytes; a
  segment header that announces 64 bytes.
\<close>

definition frameHeaderBytes :: "byte \<Rightarrow> byte \<Rightarrow> byte \<Rightarrow> buffer" where
  "frameHeaderBytes sz cnt compressed =
     replicate 16 0 @ replicate 8 0 @ [sz, 0, 0, 0] @ [0, 0] @ [cnt, 0] @ [0, compressed] @
     replicate 6 0"

definition ipcSegment :: buffer where
  "ipcSegment =
     [36, 0, 0, 0,  1, 0, 0, 0,  2, 0, 0, 0,  3, 0,  0, 0] @
     [0x14, 0,  0x2a, 0x01,  0, 0,  7, 0,  9, 0, 0, 0,  0, 0, 0, 0] @
     [5, 0, 0, 0]"

definition unknownIpcSegment :: buffer where
  "unknownIpcSegment =
     [36, 0, 0, 0,  1, 0, 0, 0,  2, 0, 0, 0,  3, 0,  0, 0] @
     [0x14, 0,  9, 0,  0, 0,  7, 0,  9, 0, 0, 0,  0, 0, 0, 0] @
     [5, 0, 0, 0]"

definition keepAliveSegment :: buffer where
  "keepAliveSegment = [16, 0, 0, 0,  1, 0, 0, 0,  2, 0, 0, 0,  7, 0,  0, 0]"

definition overlongSegment :: buffer where
  "overlongSegment = [64, 0, 0, 0,  1, 0, 0, 0,  2, 0, 0, 0,  7, 0,  0, 0]"

text \<open>
  Example frames: a keepalive frame of header only; an IPC segment and a keepalive
  segment; one IPC segment; a keepalive segment and then an IPC segment; two compressed
  frames of no segments; a frame whose only segment announces more than the body holds;
  the first 17 bytes of a frame.
\<close>

definition keepAliveFrame :: buffer where
  "keepAliveFrame = frameHeaderBytes 40 0 0"

definition twoSegmentFrame :: buffer where
  "twoSegmentFrame = frameHeaderBytes 92 2 0 @ ipcSegment @ keepAliveSegment"

definition ipcFrame :: buffer where
  "ipcFrame = frameHeaderBytes 76 1 0 @ ipcSegment"

definition lateThrowFrame :: buffer where
  "lateThrowFrame = frameHeaderBytes 92 2 0 @ keepAliveSegment @ ipcSegment"

definition encryptedFrame :: buffer where
  "encryptedFrame = frameHeaderBytes 43 0 1 @ [1, 2, 3]"

definition brokenFrame :: buffer where
  "brokenFrame = frameHeaderBytes 43 0 1 @ [0x78, 0x9c, 0x07]"

definition overlongFrame :: buffer where
  "overlongFrame = frameHeaderBytes 56 1 0 @ overlongSegment"

definition partialFrame :: buffer where
  "partialFrame = take 17 (frameHeaderBytes 76 1 0)"

text \<open>The records the example segments are parsed into, and the events of the examples.\<close>

definition ipcSegmentHeader :: SegmentHeader where
  "ipcSegmentHeader =
     \<lparr>segSize = 36, sourceActor = 1, targetActor = 2, segmentType = 3, padding = 0,
      operation = Receive\<rparr>"

definition keepAliveHeader :: SegmentHeader where
  "keepAliveHeader =
     \<lparr>segSize = 16, sourceActor = 1, targetActor = 2, segmentType = 7, padding = 0,
      operation = Receive\<rparr>"

definition overlongHeader :: SegmentHeader where
  "overlongHeader =
     \<lparr>segSize = 64, sourceActor = 1, targetActor = 2, segmentType = 7, padding = 0,
      operation = Receive\<rparr>"

definition npcSpawnIpcHeader :: IpcHeader where
  "npcSpawnIpcHeader = \<lparr>reserved = 20, ipcType = 298, serverId = 7, ipcTimestamp = 9\<rparr>"

definition unknownIpcHeader :: IpcHeader where
  "unknownIpcHeader = \<lparr>reserved = 20, ipcType = 9, serverId = 7, ipcTimestamp = 9\<rparr>"

definition npcSpawnSegment :: "nat js_value option \<Rightarrow> nat Segment" where
  "npcSpawnSegment parsed =
     \<lparr>header = ipcSegmentHeader, ipcHeader = Some npcSpawnIpcHeader,
      ipcData = Some [5, 0, 0, 0], parsedIpcData = parsed\<rparr>"

definition unknownSegment :: "nat Segment" where
  "unknownSegment =
     \<lparr>header = ipcSegmentHeader, ipcHeader = Some unknownIpcHeader,
      ipcData = Some [5, 0, 0, 0], parsedIpcData = None\<rparr>"

definition plainSegment :: "SegmentHeader \<Rightarrow> nat Segment" where
  "plainSegment h = \<lparr>header = h, ipcHeader = None, ipcData = None, parsedIpcData = None\<rparr>"

definition packetOf :: "buffer \<Rightarrow> nat Segment list \<Rightarrow> nat Packet" where
  "packetOf f segs =
     \<lparr>source = \<lparr>address = ''10.0.0.1'', port = 54992\<rparr>,
      destination = \<lparr>address = ''10.0.0.2'', port = 50000\<rparr>,
      childFrame = \<lparr>cf_header = frameOf exampleX f, segments = segs\<rparr>\<rparr>"

definition twoSegmentEvents :: "nat event list" where
  "twoSegmentEvents =
     [Message ''npcSpawn'' (npcSpawnSegment (Some (Decoded 5))), SegmentEv (npcSpawnSegment (Some (Decoded 5))),
      SegmentEv (plainSegment keepAliveHeader),
      PacketEv (packetOf twoSegmentFrame [npcSpawnSegment (Some (Decoded 5)), plainSegment keepAliveHeader]),
      Diagnostics 1]"

definition drainedEvents :: "nat event list" where
  "drainedEvents = [PacketEv (packetOf keepAliveFrame []), Diagnostics 1] @ twoSegmentEvents"

text \<open>
  Opcode lists with two odd names: one that lowers to the name of a member of
  \<open>Object.prototype\<close>, and the empty string. An instance that has loaded them, and an IPC
  segment for each.
\<close>

definition oddLists :: "OpcodeList list" where
  "oddLists =
     [\<lparr>region = Global,
       ServerZoneIpcType = [\<lparr>name = ''ToString'', opcode = 7\<rparr>, \<lparr>name = '''', opcode = 8\<rparr>],
       ClientZoneIpcType = []\<rparr>]"

definition oddOpcodes :: "nat \<rightharpoonup> string" where
  "oddOpcodes = [7 \<mapsto> ''ToString'', 8 \<mapsto> '''']"

definition oddThis :: "(nat, nat) CaptureInterface" where
  "oddThis =
     \<lparr>m_opcodeLists = Some oddLists, m_constants = Some exampleConstants,
      m_packetDefs = loadPacketProcessors reading, m_region = Global,
      m_opcodes = Some oddOpcodes, m_bufTable = Map.empty\<rparr>"

definition toStringIpcSegment :: buffer where
  "toStringIpcSegment =
     [36, 0, 0, 0,  1, 0, 0, 0,  2, 0, 0, 0,  3, 0,  0, 0] @
     [0x14, 0,  7, 0,  0, 0,  7, 0,  9, 0, 0, 0,  0, 0, 0, 0] @
     [5, 0, 0, 0]"

definition emptyNameIpcSegment :: buffer where
  "emptyNameIpcSegment =
     [36, 0, 0, 0,  1, 0, 0, 0,  2, 0, 0, 0,  3, 0,  0, 0] @
     [0x14, 0,  8, 0,  0, 0,  7, 0,  9, 0, 0, 0,  0, 0, 0, 0] @
     [5, 0, 0, 0]"

definition toStringSegment :: "nat Segment" where
  "toStringSegment =
     \<lparr>header = ipcSegmentHeader,
      ipcHeader = Some \<lparr>reserved = 20, ipcType = 7, serverId = 7, ipcTimestamp = 9\<rparr>,
      ipcData = Some [5, 0, 0, 0], parsedIpcData = Some (JSString ''[object Object]'')\<rparr>"

definition emptyNameSegment :: "nat Segment" where
  "emptyNameSegment =
     \<lparr>header = ipcSegmentHeader,
      ipcHeader = Some \<lparr>reserved = 20, ipcType = 8, serverId = 7, ipcTimestamp = 9\<rparr>,
      ipcData = Some [5, 0, 0, 0], parsedIpcData = None\<rparr>"

section \<open>Properties of the segment loop\<close>

lemma processSegment_Inl: "processSegment X this rem off = (evs, Inl e) \<Longrightarrow> evs = []"
  by (auto simp: processSegment_def Let_def split: sum.splits option.splits prod.splits)

lemma unmarshal_keeps:
  "unmarshal this n s = Inr s' \<Longrightarrow>
     header s' = header s \<and> ipcHeader s' = ipcHeader s \<and> ipcData s' = ipcData s"
  by (auto simp: unmarshal_def split: option.splits sum.splits prod.splits)

lemma readIpc_cases:
  "readIpc X rem off h = Inr (ih, d) \<Longrightarrow>
     (segmentType h = SegmentType_Ipc X \<longrightarrow> ih \<noteq> None \<and> d \<noteq> None) \<and>
     (segmentType h \<noteq> SegmentType_Ipc X \<longrightarrow> ih = None \<and> d = None)"
  by (auto simp: readIpc_def Let_def split: if_splits sum.splits)

lemma processSegment_Inr:
  assumes "processSegment X this rem off = (evs, Inr s)"
  shows "parseSegmentHeader X (drop off rem) = Inr (header s)"
    and "\<exists>n. evs = expectedEvents X n s"
    and "nonIpcBare X s"
  using assms
  by (auto simp: processSegment_def Let_def expectedEvents_def nonIpcBare_def
      split: sum.splits option.splits prod.splits dest!: readIpc_cases unmarshal_keeps)

lemma segmentLoop_events:
  "segmentLoop X this rem n off = (evs, r) \<Longrightarrow>
     \<exists>segs names. length names = length segs \<and>
        evs = concat (map2 (expectedEvents X) names segs) \<and>
        list_all (nonIpcBare X) segs \<and>
        parsedInOrder X rem off segs \<and>
        (case r of Inr segs' \<Rightarrow> segs' = segs \<and> length segs = n | Inl e \<Rightarrow> length segs < n)"
proof (induction n arbitrary: off evs r)
  case 0
  then show ?case by (auto simp: parsedInOrder_def intro: exI[of _ "[]"])
next
  case (Suc n)
  obtain e1 r1 where p: "processSegment X this rem off = (e1, r1)" by fastforce
  show ?case
  proof (cases r1)
    case (Inl e)
    with p Suc.prems have "evs = []" "r = Inl e"
      using processSegment_Inl[of X this rem off e1 e] by auto
    then show ?thesis
      by (intro exI[of _ "[]"]) (simp add: parsedInOrder_def)
  next
    case (Inr s)
    obtain e2 r2 where l: "segmentLoop X this rem n (off + segSize (header s)) = (e2, r2)"
      by fastforce
    from Suc.IH[OF l] obtain segs names where ih:
      "length names = length segs" "e2 = concat (map2 (expectedEvents X) names segs)"
      "list_all (nonIpcBare X) segs" "parsedInOrder X rem (off + segSize (header s)) segs"
      "(case r2 of Inr segs' \<Rightarrow> segs' = segs \<and> length segs = n | Inl e \<Rightarrow> length segs < n)"
      by blast
    from p Inr obtain nm where s: "e1 = expectedEvents X nm s" "nonIpcBare X s"
      "parseSegmentHeader X (drop off rem) = Inr (header s)"
      using processSegment_Inr[of X this rem off e1 s] by blast
    have ev: "evs = e1 @ e2" and r: "r = (case r2 of Inl e \<Rightarrow> Inl e | Inr ss \<Rightarrow> Inr (s # ss))"
      using Suc.prems p Inr l by (auto split: sum.splits)
    show ?thesis
      apply (rule exI[of _ "s # segs"], rule exI[of _ "nm # names"])
      using ih s ev r by (auto simp: parsedInOrder_def split: sum.splits)
  qed
qed

text \<open>Facts about a sequence of expected events.\<close>

lemma expected_count:
  "length names = length segs \<Longrightarrow>
     length (filter isSegmentEv (concat (map2 (expectedEvents X) names segs))) = length segs"
  by (induction names segs rule: list_induct2) (auto simp: expectedEvents_def isSegmentEv_def)

lemma expected_kinds:
  "ev \<in> set (concat (map2 (expectedEvents X) names segs)) \<Longrightarrow>
     (\<exists>n s. ev = Message n s) \<or> (\<exists>s. ev = SegmentEv s)"
  by (auto simp: expectedEvents_def split: if_splits)

lemma in_expected:
  "ev \<in> set (concat (map2 (expectedEvents X) names segs)) \<longleftrightarrow>
     (\<exists>n s. (n, s) \<in> set (zip names segs) \<and> ev \<in> set (expectedEvents X n s))"
  by auto

lemma expected_segment:
  assumes bare: "list_all (nonIpcBare X) segs"
    and ev: "SegmentEv s \<in> set (concat (map2 (expectedEvents X) names segs))"
  shows "((\<exists>n. Message n s \<in> set (concat (map2 (expectedEvents X) names segs)))
           \<longleftrightarrow> segmentType (header s) = SegmentType_Ipc X) \<and> nonIpcBare X s"
proof -
  from ev obtain n s' where z: "(n, s') \<in> set (zip names segs)"
    and m: "SegmentEv s \<in> set (expectedEvents X n s')"
    unfolding in_expected by blast
  from m have eq: "s' = s" by (auto simp: expectedEvents_def split: if_splits)
  from z eq have "s \<in> set segs" by (auto dest: set_zip_rightD)
  with bare have b: "nonIpcBare X s" by (simp add: list_all_iff)
  have "Message n s \<in> set (concat (map2 (expectedEvents X) names segs))"
    if "segmentType (header s) = SegmentType_Ipc X"
    unfolding in_expected using z eq that by (auto simp: expectedEvents_def)
  moreover have "segmentType (header s) = SegmentType_Ipc X"
    if "Message n' s \<in> set (concat (map2 (expectedEvents X) names segs))" for n'
    using that unfolding in_expected by (auto simp: expectedEvents_def split: if_splits)
  ultimately show ?thesis using b by blast
qed

lemma expected_message:
  assumes "Message n s \<in> set (concat (map2 (expectedEvents X) names segs))"
  shows "segmentType (header s) = SegmentType_Ipc X \<and>
         SegmentEv s \<in> set (concat (map2 (expectedEvents X) names segs))"
  using assms unfolding in_expected by (auto simp: expectedEvents_def split: if_splits)

text \<open>The events of a frame are those of the loop, and the last two if it completes.\<close>

lemma processFrame_cases:
  assumes "processFrame X this fh buf sa da sp dp = (evs, out)"
  shows "(out = Dropped \<and> evs = [] \<and> decompress X fh buf = None) \<or>
         (\<exists>rem lev r. decompress X fh buf = Some rem \<and>
            segmentLoop X this rem (segmentCount fh) 0 = (lev, r) \<and>
            (case r of
               Inl e \<Rightarrow> out = Threw e \<and> evs = lev
             | Inr segs \<Rightarrow> out = Completed \<and>
                 evs = lev @
                   [PacketEv \<lparr>source = \<lparr>address = sa, port = sp\<rparr>,
                              destination = \<lparr>address = da, port = dp\<rparr>,
                              childFrame = \<lparr>cf_header = fh, segments = segs\<rparr>\<rparr>,
                    Diagnostics (perf_end X - perf_start X)]))"
  using assms by (auto simp: processFrame_def split: option.splits prod.splits sum.splits)

lemma processFrame_no_error:
  assumes "processFrame X this fh buf sa da sp dp = (evs, out)"
  shows "Error e \<notin> set evs"
proof -
  from processFrame_cases[OF assms] show ?thesis
  proof (elim disjE exE conjE)
    fix rem lev r
    assume l: "segmentLoop X this rem (segmentCount fh) 0 = (lev, r)"
      and c: "case r of Inl e \<Rightarrow> out = Threw e \<and> evs = lev
              | Inr segs \<Rightarrow> out = Completed \<and> evs = lev @
                   [PacketEv \<lparr>source = \<lparr>address = sa, port = sp\<rparr>,
                              destination = \<lparr>address = da, port = dp\<rparr>,
                              childFrame = \<lparr>cf_header = fh, segments = segs\<rparr>\<rparr>,
                    Diagnostics (perf_end X - perf_start X)]"
    from segmentLoop_events[OF l] obtain segs names where
      "lev = concat (map2 (expectedEvents X) names segs)" by blast
    then have "Error e \<notin> set lev" using expected_kinds[of "Error e" X names segs] by auto
    with c show ?thesis by (cases r) auto
  qed simp
qed


text \<open>An exception in turn \<open>k + 1\<close> leaves the loop with the events of the first \<open>k\<close> turns.\<close>

lemma segmentLoop_throw:
  "segmentLoop X this rem k off = (evs, Inr segs) \<Longrightarrow>
   processSegment X this rem (off + endOf segs) = ([], Inl e) \<Longrightarrow>
   segmentLoop X this rem (k + Suc m) off = (evs, Inl e)"
proof (induction k arbitrary: off evs segs)
  case 0
  then show ?case by (simp add: endOf_def)
next
  case (Suc k)
  from Suc.prems(1) obtain e1 s e2 segs' where
    p: "processSegment X this rem off = (e1, Inr s)"
    and l: "segmentLoop X this rem k (off + segSize (header s)) = (e2, Inr segs')"
    and ev: "evs = e1 @ e2" and sg: "segs = s # segs'"
    by (auto split: prod.splits sum.splits)
  from Suc.prems(2) sg have
    "processSegment X this rem (off + segSize (header s) + endOf segs') = ([], Inl e)"
    by (simp add: endOf_def add.assoc)
  from Suc.IH[OF l this] p ev show ?case by simp
qed

text \<open>
  The IPC data of a segment: the bytes of the frame body after the IPC header, as many as
  the allocated buffer takes, and zeros where the body has run out.
\<close>

lemma readIpc_data:
  assumes "readIpc X rem off sh = Inr (ih, Some d)"
  shows "d = take (length d) (drop (off + SEG_HEADER_SIZE X + IPC_HEADER_SIZE X) rem) @
             replicate (length d - length (drop (off + SEG_HEADER_SIZE X + IPC_HEADER_SIZE X) rem)) 0"
proof -
  let ?body = "drop (off + SEG_HEADER_SIZE X + IPC_HEADER_SIZE X) rem"
  from assms obtain n where d: "d = take n ?body @ drop (length (take n ?body)) (replicate n 0)"
    by (auto simp: readIpc_def Let_def Buffer_alloc_def Buffer_copy_def add.commute add.left_commute
        split: if_splits sum.splits)
  then have "length d = n" by auto
  with d show ?thesis by (auto simp: min_def)
qed

section \<open>Evaluating the examples\<close>

lemma le_Nil: "le [] = 0"
  by (simp add: le_def)

lemma le_Cons: "le (b # bs) = unat b + 256 * le bs"
  by (simp add: le_def)

lemma le_zeros: "le (replicate n 0) = 0"
  by (induction n) (simp_all add: le_Nil le_Cons)

lemmas le_simps = le_Nil le_Cons le_zeros

lemma frameOf_header [simp]: "frameOf exampleX (frameHeaderBytes sz cnt c @ body) =
   \<lparr>magic = replicate 16 0, timestamp = 0, frameSize = unat sz, connectionType = 0,
    segmentCount = unat cnt, isCompressed = (c \<noteq> 0)\<rparr>"
  by (simp add: frameOf_def exampleX_def example_parseFrameHeader_def frameHeaderBytes_def
      field_def le_simps unat_eq_0)

lemma drop_header [simp]: "drop 40 (frameHeaderBytes sz cnt c @ body) = body"
  by (simp add: frameHeaderBytes_def)

lemma segmentLoop_unfold:
  "0 < n \<Longrightarrow> segmentLoop X this rem n offset =
     (case processSegment X this rem offset of
        (evs, Inl e) \<Rightarrow> (evs, Inl e)
      | (evs, Inr segment) \<Rightarrow>
          (case segmentLoop X this rem (n - 1) (offset + segSize (header segment)) of
             (evs', Inl e) \<Rightarrow> (evs @ evs', Inl e)
           | (evs', Inr segs) \<Rightarrow> (evs @ evs', Inr (segment # segs))))"
  by (cases n) simp_all

lemmas turn_defs =
  processSegment_def readIpc_def unmarshal_def Buffer_alloc_def Buffer_copy_def
  typeNameOf_def lowerFirst_def toLowerCase_def loadPacketProcessors_def processorNames_def
  called_def Object_prototype_def
  exampleX_def exampleThis_def example_parseSegmentHeader_def example_parseIpcHeader_def
  example_roundToNextPowerOf2_def exampleConstants_def exampleOpcodes_def field_def le_simps
  Let_def

lemma ipc_turn:
  "processSegment exampleX (exampleThis reading) (ipcSegment @ rest) 0 =
     ([Message ''npcSpawn'' (npcSpawnSegment (Some (Decoded 5))), SegmentEv (npcSpawnSegment (Some (Decoded 5)))],
      Inr (npcSpawnSegment (Some (Decoded 5))))"
  by (simp add: turn_defs ipcSegment_def npcSpawnSegment_def ipcSegmentHeader_def
      npcSpawnIpcHeader_def reading_def firstUInt32_def)

lemma ipc_turn_throwing:
  "processSegment exampleX (exampleThis throwing) (ipcSegment @ rest) 0 =
     ([], Inl (OtherError ''decoder failed''))"
  by (simp add: turn_defs ipcSegment_def throwing_def processorThrows_def)

lemma unknown_turn:
  "processSegment exampleX (exampleThis reading) (unknownIpcSegment @ rest) 0 =
     ([Message ''unknown'' unknownSegment, SegmentEv unknownSegment], Inr unknownSegment)"
  by (simp add: turn_defs unknownIpcSegment_def unknownSegment_def ipcSegmentHeader_def
      unknownIpcHeader_def)

lemma keepAlive_turn:
  "processSegment exampleX (exampleThis reading) (ipcSegment @ keepAliveSegment) 36 =
     ([SegmentEv (plainSegment keepAliveHeader)], Inr (plainSegment keepAliveHeader))"
  by (simp add: turn_defs ipcSegment_def keepAliveSegment_def plainSegment_def keepAliveHeader_def)

lemma overlong_turn:
  "processSegment exampleX (exampleThis reading) overlongSegment 0 =
     ([SegmentEv (plainSegment overlongHeader)], Inr (plainSegment overlongHeader))"
  by (simp add: turn_defs overlongSegment_def plainSegment_def overlongHeader_def)

lemma two_segment_loop:
  "segmentLoop exampleX (exampleThis reading) (ipcSegment @ keepAliveSegment) 2 0 =
     ([Message ''npcSpawn'' (npcSpawnSegment (Some (Decoded 5))), SegmentEv (npcSpawnSegment (Some (Decoded 5))),
       SegmentEv (plainSegment keepAliveHeader)],
      Inr [npcSpawnSegment (Some (Decoded 5)), plainSegment keepAliveHeader])"
  by (simp add: segmentLoop_unfold ipc_turn keepAlive_turn npcSpawnSegment_def ipcSegmentHeader_def)

lemma example_sizes [simp]:
  "FRAME_HEADER_SIZE exampleX = 40" "perf_end exampleX - perf_start exampleX = 1"
  "FRAME_HEADER_SIZE badInflateX = 40" "perf_end badInflateX - perf_start badInflateX = 1"
  "inflate exampleX b = Inl ''incorrect header check''"
  "inflate badInflateX b = Inl ''invalid block type''"
  by (simp_all add: exampleX_def badInflateX_def inflateThrows_def)

lemma length_frameHeaderBytes [simp]: "length (frameHeaderBytes sz cnt c) = 40"
  by (simp add: frameHeaderBytes_def)

lemma two_segment_frame:
  "processFrame exampleX (exampleThis reading) (frameOf exampleX twoSegmentFrame) twoSegmentFrame
     ''10.0.0.1'' ''10.0.0.2'' 54992 50000 =
     ([Message ''npcSpawn'' (npcSpawnSegment (Some (Decoded 5))), SegmentEv (npcSpawnSegment (Some (Decoded 5))),
       SegmentEv (plainSegment keepAliveHeader),
       PacketEv (packetOf twoSegmentFrame [npcSpawnSegment (Some (Decoded 5)), plainSegment keepAliveHeader]),
       Diagnostics 1],
      Completed)"
  by (simp add: processFrame_def decompress_def twoSegmentFrame_def two_segment_loop packetOf_def)

lemma keepAlive_frame:
  "processFrame exampleX this (frameOf exampleX keepAliveFrame) keepAliveFrame
     ''10.0.0.1'' ''10.0.0.2'' 54992 50000 =
     ([PacketEv (packetOf keepAliveFrame []), Diagnostics 1], Completed)"
  using frameOf_header[of 40 0 0 "[]"]
  by (simp add: processFrame_def decompress_def keepAliveFrame_def packetOf_def)

lemma overlong_frame:
  "processFrame exampleX (exampleThis reading) (frameOf exampleX overlongFrame) overlongFrame
     ''10.0.0.1'' ''10.0.0.2'' 54992 50000 =
     ([SegmentEv (plainSegment overlongHeader),
       PacketEv (packetOf overlongFrame [plainSegment overlongHeader]), Diagnostics 1],
      Completed)"
  by (simp add: processFrame_def decompress_def overlongFrame_def segmentLoop_unfold overlong_turn
      packetOf_def)

lemma throwing_frame:
  "processFrame exampleX (exampleThis throwing) (frameOf exampleX ipcFrame) ipcFrame
     ''10.0.0.1'' ''10.0.0.2'' 54992 50000 = ([], Threw (OtherError ''decoder failed''))"
  using ipc_turn_throwing[of "[]"]
  by (simp add: processFrame_def decompress_def ipcFrame_def segmentLoop_unfold)

lemma bad_inflate_frame:
  "processFrame badInflateX (exampleThis reading) (frameOf exampleX brokenFrame) brokenFrame
     ''10.0.0.1'' ''10.0.0.2'' 54992 50000 =
     ([PacketEv (packetOf brokenFrame []), Diagnostics 1], Completed)"
  by (simp add: processFrame_def decompress_def brokenFrame_def packetOf_def)


lemma late_keepAlive_turn:
  "processSegment exampleX (exampleThis throwing) (keepAliveSegment @ ipcSegment) 0 =
     ([SegmentEv (plainSegment keepAliveHeader)], Inr (plainSegment keepAliveHeader))"
  by (simp add: turn_defs ipcSegment_def keepAliveSegment_def plainSegment_def keepAliveHeader_def)

lemma late_loop:
  "segmentLoop exampleX (exampleThis throwing) (keepAliveSegment @ ipcSegment) 1 0 =
     ([SegmentEv (plainSegment keepAliveHeader)], Inr [plainSegment keepAliveHeader])"
  by (simp add: late_keepAlive_turn)

lemma two_segment_frame_events:
  "processFrame exampleX (exampleThis reading) (frameOf exampleX twoSegmentFrame) twoSegmentFrame
     ''10.0.0.1'' ''10.0.0.2'' 54992 50000 = (twoSegmentEvents, Completed)"
  by (simp add: two_segment_frame twoSegmentEvents_def)

lemma example_parse_ipc:
  "parseSegmentHeader exampleX (drop 0 (ipcSegment @ rest)) = Inr ipcSegmentHeader"
  "parseSegmentHeader exampleX (drop 0 (unknownIpcSegment @ rest)) = Inr ipcSegmentHeader"
  by (simp_all add: exampleX_def example_parseSegmentHeader_def ipcSegment_def
      unknownIpcSegment_def ipcSegmentHeader_def field_def le_simps)

lemma example_readIpc:
  "readIpc exampleX (ipcSegment @ rest) 0 ipcSegmentHeader =
     Inr (Some npcSpawnIpcHeader, Some [5, 0, 0, 0])"
  "readIpc exampleX (unknownIpcSegment @ rest) 0 ipcSegmentHeader =
     Inr (Some unknownIpcHeader, Some [5, 0, 0, 0])"
  by (simp_all add: readIpc_def exampleX_def example_parseIpcHeader_def ipcSegment_def
      unknownIpcSegment_def ipcSegmentHeader_def npcSpawnIpcHeader_def unknownIpcHeader_def
      field_def le_simps Buffer_alloc_def Buffer_copy_def example_roundToNextPowerOf2_def Let_def)

lemma example_type [simp]:
  "segmentType ipcSegmentHeader = SegmentType_Ipc exampleX"
  "segmentType keepAliveHeader \<noteq> SegmentType_Ipc exampleX"
  by (simp_all add: ipcSegmentHeader_def keepAliveHeader_def exampleX_def)

lemma example_cache: "updateOpcodesCache (exampleThis impl) = exampleThis impl"
  by (simp add: updateOpcodesCache_def exampleThis_def exampleLists_def exampleOpcodes_def)

lemma odd_cache: "updateOpcodesCache oddThis = oddThis"
  by (simp add: updateOpcodesCache_def oddThis_def oddLists_def oddOpcodes_def)

lemma toString_turn:
  "processSegment exampleX oddThis toStringIpcSegment 0 =
     ([Message ''toString'' toStringSegment, SegmentEv toStringSegment], Inr toStringSegment)"
  by (simp add: turn_defs oddThis_def oddOpcodes_def toStringIpcSegment_def toStringSegment_def
      ipcSegmentHeader_def)

lemma emptyName_turn:
  "processSegment exampleX oddThis emptyNameIpcSegment 0 =
     ([Message ''unknown'' emptyNameSegment, SegmentEv emptyNameSegment], Inr emptyNameSegment)"
  by (simp add: turn_defs oddThis_def oddOpcodes_def emptyNameIpcSegment_def emptyNameSegment_def
      ipcSegmentHeader_def)

lemma late_ipc_turn:
  "processSegment exampleX (exampleThis throwing) (keepAliveSegment @ ipcSegment) 16 =
     ([], Inl (OtherError ''decoder failed''))"
  by (simp add: turn_defs ipcSegment_def keepAliveSegment_def throwing_def processorThrows_def)

lemma late_throw_frame:
  "processFrame exampleX (exampleThis throwing) (frameOf exampleX lateThrowFrame) lateThrowFrame
     ''10.0.0.1'' ''10.0.0.2'' 54992 50000 =
     ([SegmentEv (plainSegment keepAliveHeader)], Threw (OtherError ''decoder failed''))"
  by (simp add: processFrame_def decompress_def lateThrowFrame_def segmentLoop_unfold
      late_keepAlive_turn late_ipc_turn plainSegment_def keepAliveHeader_def)

section \<open>Decompression failures\<close>

text \<open>
  C1 as the specification states it: a compressed frame whose body fails inflation with
  an error other than \<open>"incorrect header check"\<close> is reported through the error event and
  dropped, with no segment, packet or diagnostics event. The \<open>catch\<close> block of lines 187
  to 192 returns only for \<open>"incorrect header check"\<close> and does nothing else, and
  \<open>_processFrame\<close> never emits \<open>error\<close>. In the example inflate fails with
  \<open>"invalid block type"\<close> on a frame of no segments: no error event is emitted, and the
  packet and diagnostics events are.
\<close>

theorem inflate_failure_counterexample:
  "isCompressed (frameOf exampleX brokenFrame) \<and>
   inflate badInflateX (drop (FRAME_HEADER_SIZE badInflateX) brokenFrame) =
     Inl ''invalid block type'' \<and>
   processFrame badInflateX (exampleThis reading) (frameOf exampleX brokenFrame) brokenFrame
     ''10.0.0.1'' ''10.0.0.2'' 54992 50000 =
     ([PacketEv (packetOf brokenFrame []), Diagnostics 1], Completed)"
  using bad_inflate_frame by (simp add: brokenFrame_def)

text \<open>
  What the \<open>catch\<close> block leaves of such a frame: the body as it arrived, still compressed,
  which the segment loop then reads.
\<close>

lemma inflate_failure_falls_through:
  assumes "isCompressed frameHeader"
    and "inflate X (drop (FRAME_HEADER_SIZE X) buf) = Inl err"
    and "err \<noteq> ''incorrect header check''"
  shows "decompress X frameHeader buf = Some (drop (FRAME_HEADER_SIZE X) buf)"
  using assms by (simp add: decompress_def)

text \<open>
  C1 as amended. For a compressed frame whose body fails inflation with an error other
  than \<open>"incorrect header check"\<close>, the frame processor does not report the failure: the
  error is caught and no error event is emitted, whatever else the frame leads to.
\<close>

theorem inflate_failure_not_reported:
  assumes "isCompressed frameHeader"
    and "inflate X (drop (FRAME_HEADER_SIZE X) buf) = Inl err"
    and "err \<noteq> ''incorrect header check''"
    and "processFrame X this frameHeader buf srcAddr dstAddr srcPort dstPort = (evs, out)"
  shows "\<forall>e. Error e \<notin> set evs"
  using processFrame_no_error[OF assms(4)] by blast

theorem inflate_failure_not_reported_witness:
  "isCompressed (frameOf exampleX brokenFrame) \<and>
   inflate badInflateX (drop (FRAME_HEADER_SIZE badInflateX) brokenFrame) =
     Inl ''invalid block type'' \<and>
   ''invalid block type'' \<noteq> ''incorrect header check'' \<and>
   processFrame badInflateX (exampleThis reading) (frameOf exampleX brokenFrame) brokenFrame
     ''10.0.0.1'' ''10.0.0.2'' 54992 50000 =
     ([PacketEv (packetOf brokenFrame []), Diagnostics 1], Completed) \<and>
   Error RangeError \<notin> set [PacketEv (packetOf brokenFrame []), Diagnostics (1::real)]"
proof -
  have c: "isCompressed (frameOf exampleX brokenFrame)"
    by (simp add: brokenFrame_def)
  have i: "inflate badInflateX (drop (FRAME_HEADER_SIZE badInflateX) brokenFrame) =
             Inl ''invalid block type''"
    by simp
  have n: "''invalid block type'' \<noteq> ''incorrect header check''"
    by simp
  from inflate_failure_not_reported [OF c i n bad_inflate_frame] c i n bad_inflate_frame
  show ?thesis by blast
qed

section \<open>Decoder failures\<close>

text \<open>
  C2 as the specification states it: when the decoder of an IPC segment throws, the exception is
  caught, an error event is emitted, and the segment and packet events are still emitted.
  The call of line 224 is not inside any \<open>try\<close>, and \<open>error\<close> is never emitted. In the
  example the frame holds one IPC segment whose processor throws: the exception leaves
  \<open>_processFrame\<close> and no event at all has been emitted.
\<close>

theorem decoder_failure_counterexample:
  "processFrame exampleX (exampleThis throwing) (frameOf exampleX ipcFrame) ipcFrame
     ''10.0.0.1'' ''10.0.0.2'' 54992 50000 = ([], Threw (OtherError ''decoder failed''))"
  by (rule throwing_frame)

text \<open>
  C2 as amended. When the decoder of an IPC segment throws, the exception is not caught:
  it leaves the frame processor. No error event is emitted, no message or segment event
  for that segment, and no packet or diagnostics event for the frame; the events of the
  \<open>k\<close> segments before it have been emitted, and nothing else.
\<close>

theorem decoder_exception_escapes:
  assumes "decompress X frameHeader buf = Some remainder"
    and "segmentCount frameHeader = k + Suc m"
    and "segmentLoop X this remainder k 0 = (evs, Inr segs)"
    and "parseSegmentHeader X (drop (endOf segs) remainder) = Inr sh"
    and "readIpc X remainder (endOf segs) sh = Inr (Some ih, Some d)"
    and "m_opcodes this = Some opcodes"
    and "m_packetDefs this (typeNameOf opcodes (ipcType ih)) = Some processor"
    and "m_constants this = Some constants"
    and "processor d (constants (m_region this)) = Inl e"
  shows "processFrame X this frameHeader buf srcAddr dstAddr srcPort dstPort = (evs, Threw e) \<and>
         length (filter isSegmentEv evs) = k \<and>
         (\<forall>ev \<in> set evs. (\<exists>n s. ev = Message n s) \<or> (\<exists>s. ev = SegmentEv s))"
proof -
  have t: "processSegment X this remainder (0 + endOf segs) = ([], Inl e)"
    using assms(4-9) by (simp add: processSegment_def unmarshal_def)
  have l: "segmentLoop X this remainder (segmentCount frameHeader) 0 = (evs, Inl e)"
    unfolding assms(2) by (rule segmentLoop_throw[OF assms(3) t])
  have f: "processFrame X this frameHeader buf srcAddr dstAddr srcPort dstPort = (evs, Threw e)"
    using assms(1) l by (simp add: processFrame_def)
  from segmentLoop_events[OF assms(3)] obtain names where
    n: "length names = length segs" "evs = concat (map2 (expectedEvents X) names segs)"
    "length segs = k" by auto
  have c: "length (filter isSegmentEv evs) = k"
    using expected_count[OF n(1), of X] n by simp
  have "\<forall>ev \<in> set evs. (\<exists>n s. ev = Message n s) \<or> (\<exists>s. ev = SegmentEv s)"
    unfolding n(2) using expected_kinds by blast
  with f c show ?thesis by blast
qed

theorem decoder_exception_escapes_witness:
  "processFrame exampleX (exampleThis throwing) (frameOf exampleX lateThrowFrame) lateThrowFrame
     ''10.0.0.1'' ''10.0.0.2'' 54992 50000 =
     ([SegmentEv (plainSegment keepAliveHeader)], Threw (OtherError ''decoder failed'')) \<and>
   length (filter isSegmentEv [SegmentEv (plainSegment keepAliveHeader)]) = 1"
proof -
  let ?ih = "npcSpawnIpcHeader"
  have a1: "decompress exampleX (frameOf exampleX lateThrowFrame) lateThrowFrame =
              Some (keepAliveSegment @ ipcSegment)"
    by (simp add: decompress_def lateThrowFrame_def)
  have a2: "segmentCount (frameOf exampleX lateThrowFrame) = 1 + Suc 0"
    by (simp add: lateThrowFrame_def)
  have e: "endOf [plainSegment keepAliveHeader] = 16"
    by (simp add: endOf_def plainSegment_def keepAliveHeader_def)
  have a4: "parseSegmentHeader exampleX (drop (endOf [plainSegment keepAliveHeader])
              (keepAliveSegment @ ipcSegment)) = Inr ipcSegmentHeader"
    unfolding e
    by (simp add: exampleX_def example_parseSegmentHeader_def keepAliveSegment_def ipcSegment_def
        ipcSegmentHeader_def field_def le_simps)
  have a5: "readIpc exampleX (keepAliveSegment @ ipcSegment) (endOf [plainSegment keepAliveHeader])
              ipcSegmentHeader = Inr (Some ?ih, Some [5, 0, 0, 0])"
    unfolding e
    by (simp add: readIpc_def exampleX_def example_parseIpcHeader_def keepAliveSegment_def
        ipcSegment_def ipcSegmentHeader_def npcSpawnIpcHeader_def field_def le_simps
        Buffer_alloc_def Buffer_copy_def example_roundToNextPowerOf2_def Let_def)
  have a6: "m_opcodes (exampleThis throwing) = Some exampleOpcodes"
    by (simp add: exampleThis_def)
  have a7: "m_packetDefs (exampleThis throwing) (typeNameOf exampleOpcodes (ipcType ?ih)) =
              Some (called (processorThrows (OtherError ''decoder failed'')))"
    by (simp add: exampleThis_def exampleOpcodes_def npcSpawnIpcHeader_def typeNameOf_def
        lowerFirst_def toLowerCase_def loadPacketProcessors_def processorNames_def throwing_def)
  have a8: "m_constants (exampleThis throwing) = Some exampleConstants"
    by (simp add: exampleThis_def)
  have a9: "called (processorThrows (OtherError ''decoder failed'')) [5, 0, 0, 0]
              (exampleConstants (m_region (exampleThis throwing))) = Inl (OtherError ''decoder failed'')"
    by (simp add: called_def processorThrows_def)
  from decoder_exception_escapes [OF a1 a2 late_loop a4 a5 a6 a7 a8 a9]
  show ?thesis by blast
qed

section \<open>Encrypted frames\<close>

text \<open>
  C3. A frame with \<open>isCompressed\<close> set whose body \<open>pako.inflate\<close> rejects with
  \<open>"incorrect header check"\<close> makes \<open>_processFrame\<close> return at once: it emits no event at
  all, so no segment, packet or error event.
\<close>

theorem encrypted_frame_dropped:
  assumes "isCompressed frameHeader"
    and "inflate X (drop (FRAME_HEADER_SIZE X) buf) = Inl ''incorrect header check''"
  shows "processFrame X this frameHeader buf srcAddr dstAddr srcPort dstPort = ([], Dropped)"
  using assms by (simp add: processFrame_def decompress_def)

theorem encrypted_frame_dropped_witness:
  "isCompressed (frameOf exampleX encryptedFrame) \<and>
   inflate exampleX (drop (FRAME_HEADER_SIZE exampleX) encryptedFrame) = Inl ''incorrect header check'' \<and>
   processFrame exampleX (exampleThis reading) (frameOf exampleX encryptedFrame) encryptedFrame
     ''10.0.0.1'' ''10.0.0.2'' 54992 50000 = ([], Dropped)"
proof -
  have c: "isCompressed (frameOf exampleX encryptedFrame)"
    by (simp add: encryptedFrame_def)
  have i: "inflate exampleX (drop (FRAME_HEADER_SIZE exampleX) encryptedFrame) = Inl ''incorrect header check''"
    by (simp add: exampleX_def inflateThrows_def)
  show ?thesis
    using c i encrypted_frame_dropped [OF c i] by simp
qed

section \<open>The events of one frame\<close>

text \<open>
  C4. For every frame that \<open>_processFrame\<close> completes, the events emitted are, for each
  segment in the order of the offsets at which they were parsed (each where the one
  before ends), the message event only if the segment is IPC, immediately followed by its
  segment event; then one packet event carrying these segments; then one diagnostics
  event. There are \<open>segmentCount\<close> segments.
\<close>

theorem completed_frame_event_order:
  assumes "processFrame X this frameHeader buf srcAddr dstAddr srcPort dstPort = (evs, Completed)"
  shows "\<exists>remainder segs names t.
           decompress X frameHeader buf = Some remainder \<and>
           length segs = segmentCount frameHeader \<and> length names = length segs \<and>
           parsedInOrder X remainder 0 segs \<and>
           evs = concat (map2 (expectedEvents X) names segs) @
                 [PacketEv \<lparr>source = \<lparr>address = srcAddr, port = srcPort\<rparr>,
                            destination = \<lparr>address = dstAddr, port = dstPort\<rparr>,
                            childFrame = \<lparr>cf_header = frameHeader, segments = segs\<rparr>\<rparr>,
                  Diagnostics t]"
proof -
  from processFrame_cases[OF assms] obtain rem lev r where
    d: "decompress X frameHeader buf = Some rem"
    and l: "segmentLoop X this rem (segmentCount frameHeader) 0 = (lev, r)"
    and c: "case r of Inl e \<Rightarrow> Completed = Threw e \<and> evs = lev
              | Inr segs \<Rightarrow> Completed = Completed \<and> evs = lev @
                   [PacketEv \<lparr>source = \<lparr>address = srcAddr, port = srcPort\<rparr>,
                              destination = \<lparr>address = dstAddr, port = dstPort\<rparr>,
                              childFrame = \<lparr>cf_header = frameHeader, segments = segs\<rparr>\<rparr>,
                    Diagnostics (perf_end X - perf_start X)]"
    by auto
  from c obtain segs where r: "r = Inr segs" by (cases r) auto
  from segmentLoop_events[OF l] r obtain names where
    n: "length names = length segs" "lev = concat (map2 (expectedEvents X) names segs)"
    "parsedInOrder X rem 0 segs" "length segs = segmentCount frameHeader"
    by auto
  from c r have "evs = lev @
      [PacketEv \<lparr>source = \<lparr>address = srcAddr, port = srcPort\<rparr>,
                 destination = \<lparr>address = dstAddr, port = dstPort\<rparr>,
                 childFrame = \<lparr>cf_header = frameHeader, segments = segs\<rparr>\<rparr>,
       Diagnostics (perf_end X - perf_start X)]" by simp
  with d n show ?thesis by blast
qed

theorem completed_frame_event_order_witness:
  "processFrame exampleX (exampleThis reading) (frameOf exampleX twoSegmentFrame) twoSegmentFrame
     ''10.0.0.1'' ''10.0.0.2'' 54992 50000 = (twoSegmentEvents, Completed) \<and>
   (\<exists>remainder segs names t.
      decompress exampleX (frameOf exampleX twoSegmentFrame) twoSegmentFrame = Some remainder \<and>
      length segs = segmentCount (frameOf exampleX twoSegmentFrame) \<and>
      length names = length segs \<and>
      parsedInOrder exampleX remainder 0 segs \<and>
      twoSegmentEvents =
        concat (map2 (expectedEvents exampleX) names segs) @
        [PacketEv \<lparr>source = \<lparr>address = ''10.0.0.1'', port = 54992\<rparr>,
                   destination = \<lparr>address = ''10.0.0.2'', port = 50000\<rparr>,
                   childFrame = \<lparr>cf_header = frameOf exampleX twoSegmentFrame, segments = segs\<rparr>\<rparr>,
         Diagnostics t])"
  using completed_frame_event_order [OF two_segment_frame_events] two_segment_frame_events
  by blast

section \<open>Message events and IPC segments\<close>

text \<open>A turn of the loop that throws has emitted nothing, and before it the loop ran as usual.\<close>

lemma segmentLoop_thrown:
  "segmentLoop X this rem n off = (evs, Inl e) \<Longrightarrow>
     \<exists>segs names. length names = length segs \<and>
        evs = concat (map2 (expectedEvents X) names segs) \<and>
        list_all (nonIpcBare X) segs \<and>
        parsedInOrder X rem off segs \<and>
        length segs < n \<and>
        processSegment X this rem (off + endOf segs) = ([], Inl e)"
proof (induction n arbitrary: off evs)
  case 0
  then show ?case by simp
next
  case (Suc n)
  obtain e1 r1 where p: "processSegment X this rem off = (e1, r1)" by fastforce
  show ?case
  proof (cases r1)
    case (Inl e')
    with p Suc.prems have "evs = []" "e' = e" "e1 = []"
      using processSegment_Inl[of X this rem off e1 e'] by auto
    with p Inl show ?thesis
      by (intro exI[of _ "[]"]) (simp add: parsedInOrder_def endOf_def)
  next
    case (Inr s)
    obtain e2 r2 where l: "segmentLoop X this rem n (off + segSize (header s)) = (e2, r2)"
      by fastforce
    with Suc.prems p Inr have r2: "r2 = Inl e" and ev: "evs = e1 @ e2"
      by (auto split: sum.splits)
    from Suc.IH[OF l[unfolded r2]] obtain segs names where ih:
      "length names = length segs" "e2 = concat (map2 (expectedEvents X) names segs)"
      "list_all (nonIpcBare X) segs" "parsedInOrder X rem (off + segSize (header s)) segs"
      "length segs < n"
      "processSegment X this rem (off + segSize (header s) + endOf segs) = ([], Inl e)"
      by blast
    from p Inr obtain nm where s: "e1 = expectedEvents X nm s" "nonIpcBare X s"
      "parseSegmentHeader X (drop off rem) = Inr (header s)"
      using processSegment_Inr[of X this rem off e1 s] by blast
    show ?thesis
      apply (rule exI[of _ "s # segs"], rule exI[of _ "nm # names"])
      using ih s ev by (auto simp: parsedInOrder_def endOf_def add.assoc)
  qed
qed

text \<open>Once the header of a segment is parsed, only the turn of an IPC segment can throw.\<close>

lemma thrown_is_ipc:
  "processSegment X this rem off = (evs, Inl e) \<Longrightarrow>
   parseSegmentHeader X (drop off rem) = Inr sh \<Longrightarrow> segmentType sh = SegmentType_Ipc X"
  by (auto simp: processSegment_def readIpc_def Let_def split: sum.splits if_splits)

lemma expected_segments:
  "length names = length segs \<Longrightarrow>
     SegmentEv s \<in> set (concat (map2 (expectedEvents X) names segs)) \<longleftrightarrow> s \<in> set segs"
  by (induction names segs rule: list_induct2) (auto simp: expectedEvents_def)

text \<open>
  C5 as the specification states it: for every segment processed, a message event is
  emitted if and only if its type is IPC. A frame of one IPC segment is handed to an
  instance whose region has no opcode list: the segment header is parsed, the type of
  the segment is IPC, and the frame processor is left by the TypeError of the opcode
  lookup with no event emitted, so the IPC segment has no message event.
\<close>

theorem ipc_without_message_counterexample:
  "decompress exampleX (frameOf exampleX ipcFrame) ipcFrame = Some (ipcSegment @ []) \<and>
   parseSegmentHeader exampleX (drop 0 (ipcSegment @ [])) = Inr ipcSegmentHeader \<and>
   segmentType ipcSegmentHeader = SegmentType_Ipc exampleX \<and>
   processFrame exampleX (setRegion Korean (exampleThis reading)) (frameOf exampleX ipcFrame)
     ipcFrame ''10.0.0.1'' ''10.0.0.2'' 54992 50000 = ([], Threw TypeError)"
proof -
  have t: "processSegment exampleX (setRegion Korean (exampleThis reading)) (ipcSegment @ []) 0 =
             ([], Inl TypeError)"
    by (simp add: turn_defs setRegion_def updateOpcodesCache_def exampleLists_def ipcSegment_def)
  have d: "decompress exampleX (frameOf exampleX ipcFrame) ipcFrame = Some (ipcSegment @ [])"
    by (simp add: decompress_def ipcFrame_def)
  have "processFrame exampleX (setRegion Korean (exampleThis reading)) (frameOf exampleX ipcFrame)
     ipcFrame ''10.0.0.1'' ''10.0.0.2'' 54992 50000 = ([], Threw TypeError)"
    using t by (simp add: processFrame_def decompress_def ipcFrame_def segmentLoop_unfold)
  with d example_parse_ipc(1)[of "[]"] show ?thesis by simp
qed

text \<open>
  C5 as amended. A frame that is not dropped emits, for the segments whose turn of the
  loop returned and for no others, in on-wire order: a message event, if and only if the
  type of the segment is IPC, and then the segment event; a segment that is not IPC has
  \<open>ipcHeader\<close>, \<open>ipcData\<close> and \<open>parsedIpcData\<close> all absent. When the frame completes,
  these are all \<open>segmentCount\<close> segments. When a turn throws, that segment gets neither
  a message event nor a segment event and the segments after it are not processed; if
  its header was parsed, it is an IPC segment.
\<close>

theorem message_iff_ipc_turn_returns:
  assumes "decompress X frameHeader buf = Some remainder"
    and "processFrame X this frameHeader buf srcAddr dstAddr srcPort dstPort = (evs, out)"
  shows "\<exists>segs names.
           length names = length segs \<and>
           parsedInOrder X remainder 0 segs \<and>
           list_all (nonIpcBare X) segs \<and>
           evs = concat (map2 (expectedEvents X) names segs) @
                 (if out = Completed
                  then [PacketEv \<lparr>source = \<lparr>address = srcAddr, port = srcPort\<rparr>,
                                  destination = \<lparr>address = dstAddr, port = dstPort\<rparr>,
                                  childFrame = \<lparr>cf_header = frameHeader, segments = segs\<rparr>\<rparr>,
                        Diagnostics (perf_end X - perf_start X)]
                  else []) \<and>
           (\<forall>s. SegmentEv s \<in> set evs \<longleftrightarrow> s \<in> set segs) \<and>
           (\<forall>s \<in> set segs.
              (\<exists>n. Message n s \<in> set evs) \<longleftrightarrow> segmentType (header s) = SegmentType_Ipc X) \<and>
           (\<forall>n s. Message n s \<in> set evs \<longrightarrow>
              s \<in> set segs \<and> segmentType (header s) = SegmentType_Ipc X) \<and>
           out \<noteq> Dropped \<and>
           (out = Completed \<longrightarrow> length segs = segmentCount frameHeader) \<and>
           (\<forall>e. out = Threw e \<longrightarrow>
              length segs < segmentCount frameHeader \<and>
              processSegment X this remainder (endOf segs) = ([], Inl e) \<and>
              (\<forall>sh. parseSegmentHeader X (drop (endOf segs) remainder) = Inr sh \<longrightarrow>
                 segmentType sh = SegmentType_Ipc X))"
proof -
  obtain lev r where l: "segmentLoop X this remainder (segmentCount frameHeader) 0 = (lev, r)"
    by fastforce
  have "\<exists>segs names. length names = length segs \<and>
          lev = concat (map2 (expectedEvents X) names segs) \<and>
          list_all (nonIpcBare X) segs \<and> parsedInOrder X remainder 0 segs \<and>
          (case r of
             Inr segs' \<Rightarrow> segs' = segs \<and> length segs = segmentCount frameHeader
           | Inl e \<Rightarrow> length segs < segmentCount frameHeader \<and>
                      processSegment X this remainder (endOf segs) = ([], Inl e))"
  proof (cases r)
    case (Inl e)
    from segmentLoop_thrown[OF l[unfolded Inl]] Inl show ?thesis by auto
  next
    case (Inr segs')
    from segmentLoop_events[OF l] Inr show ?thesis by auto
  qed
  then obtain segs names where n: "length names = length segs"
    and lev: "lev = concat (map2 (expectedEvents X) names segs)"
    and bare: "list_all (nonIpcBare X) segs"
    and ord: "parsedInOrder X remainder 0 segs"
    and r: "case r of
              Inr segs' \<Rightarrow> segs' = segs \<and> length segs = segmentCount frameHeader
            | Inl e \<Rightarrow> length segs < segmentCount frameHeader \<and>
                       processSegment X this remainder (endOf segs) = ([], Inl e)"
    by blast
  have out: "out = (case r of Inl e \<Rightarrow> Threw e | Inr segs' \<Rightarrow> Completed)"
    and evs: "evs = lev @
                 (if out = Completed
                  then [PacketEv \<lparr>source = \<lparr>address = srcAddr, port = srcPort\<rparr>,
                                  destination = \<lparr>address = dstAddr, port = dstPort\<rparr>,
                                  childFrame = \<lparr>cf_header = frameHeader, segments = segs\<rparr>\<rparr>,
                        Diagnostics (perf_end X - perf_start X)]
                  else [])"
    using assms l r by (auto simp: processFrame_def split: sum.splits)
  have es: "SegmentEv s \<in> set lev \<longleftrightarrow> s \<in> set segs" for s
    unfolding lev by (rule expected_segments[OF n])
  have seg: "SegmentEv s \<in> set evs \<longleftrightarrow> s \<in> set segs" for s
    using es[of s] by (simp add: evs)
  have msg: "Message n s \<in> set evs \<longleftrightarrow> Message n s \<in> set lev" for n s
    by (simp add: evs)
  have iff: "(\<exists>n. Message n s \<in> set evs) \<longleftrightarrow> segmentType (header s) = SegmentType_Ipc X"
    if "s \<in> set segs" for s
  proof -
    from that es have "SegmentEv s \<in> set lev" by blast
    from expected_segment[OF bare this[unfolded lev]] show ?thesis
      unfolding msg lev by blast
  qed
  have only: "s \<in> set segs \<and> segmentType (header s) = SegmentType_Ipc X"
    if "Message n s \<in> set evs" for n s
  proof -
    from that have "Message n s \<in> set (concat (map2 (expectedEvents X) names segs))"
      unfolding msg lev .
    from expected_message[OF this] es[of s] show ?thesis
      unfolding lev by blast
  qed
  have thrown: "length segs < segmentCount frameHeader \<and>
      processSegment X this remainder (endOf segs) = ([], Inl e) \<and>
      (\<forall>sh. parseSegmentHeader X (drop (endOf segs) remainder) = Inr sh \<longrightarrow>
         segmentType sh = SegmentType_Ipc X)"
    if "out = Threw e" for e
  proof -
    from that out r have "length segs < segmentCount frameHeader"
      and t: "processSegment X this remainder (endOf segs) = ([], Inl e)"
      by (auto split: sum.splits)
    with thrown_is_ipc[OF t] show ?thesis by blast
  qed
  have completed: "length segs = segmentCount frameHeader" if "out = Completed"
    using that out r by (auto split: sum.splits)
  have nd: "out \<noteq> Dropped"
    using out by (auto split: sum.splits)
  from n ord bare evs[unfolded lev]
  have a: "length names = length segs \<and> parsedInOrder X remainder 0 segs \<and>
           list_all (nonIpcBare X) segs \<and>
           evs = concat (map2 (expectedEvents X) names segs) @
                 (if out = Completed
                  then [PacketEv \<lparr>source = \<lparr>address = srcAddr, port = srcPort\<rparr>,
                                  destination = \<lparr>address = dstAddr, port = dstPort\<rparr>,
                                  childFrame = \<lparr>cf_header = frameHeader, segments = segs\<rparr>\<rparr>,
                        Diagnostics (perf_end X - perf_start X)]
                  else [])"
    by (intro conjI)
  from seg iff only
  have b: "(\<forall>s. SegmentEv s \<in> set evs \<longleftrightarrow> s \<in> set segs) \<and>
           (\<forall>s \<in> set segs.
              (\<exists>n. Message n s \<in> set evs) \<longleftrightarrow> segmentType (header s) = SegmentType_Ipc X) \<and>
           (\<forall>n s. Message n s \<in> set evs \<longrightarrow>
              s \<in> set segs \<and> segmentType (header s) = SegmentType_Ipc X)"
    by blast
  from nd completed thrown
  have c: "out \<noteq> Dropped \<and>
           (out = Completed \<longrightarrow> length segs = segmentCount frameHeader) \<and>
           (\<forall>e. out = Threw e \<longrightarrow>
              length segs < segmentCount frameHeader \<and>
              processSegment X this remainder (endOf segs) = ([], Inl e) \<and>
              (\<forall>sh. parseSegmentHeader X (drop (endOf segs) remainder) = Inr sh \<longrightarrow>
                 segmentType sh = SegmentType_Ipc X))"
    by blast
  from conjI[OF a conjI[OF b c], unfolded conj_assoc] show ?thesis
    by (intro exI[of _ segs] exI[of _ names])
qed

theorem message_iff_ipc_turn_returns_witness:
  "processFrame exampleX (exampleThis reading) (frameOf exampleX twoSegmentFrame) twoSegmentFrame
     ''10.0.0.1'' ''10.0.0.2'' 54992 50000 = (twoSegmentEvents, Completed) \<and>
   (\<exists>segs. length segs = segmentCount (frameOf exampleX twoSegmentFrame) \<and>
      parsedInOrder exampleX (ipcSegment @ keepAliveSegment) 0 segs \<and>
      (\<forall>s. SegmentEv s \<in> set twoSegmentEvents \<longleftrightarrow> s \<in> set segs) \<and>
      (\<forall>s \<in> set segs.
         (\<exists>n. Message n s \<in> set twoSegmentEvents) \<longleftrightarrow>
         segmentType (header s) = SegmentType_Ipc exampleX)) \<and>
   processFrame exampleX (exampleThis throwing) (frameOf exampleX lateThrowFrame) lateThrowFrame
     ''10.0.0.1'' ''10.0.0.2'' 54992 50000 =
     ([SegmentEv (plainSegment keepAliveHeader)], Threw (OtherError ''decoder failed'')) \<and>
   (\<exists>segs. length segs < segmentCount (frameOf exampleX lateThrowFrame) \<and>
      (\<forall>s. SegmentEv s \<in> set [SegmentEv (plainSegment keepAliveHeader)] \<longleftrightarrow> s \<in> set segs) \<and>
      processSegment exampleX (exampleThis throwing) (keepAliveSegment @ ipcSegment) (endOf segs) =
        ([], Inl (OtherError ''decoder failed'')))"
proof -
  have d1: "decompress exampleX (frameOf exampleX twoSegmentFrame) twoSegmentFrame =
              Some (ipcSegment @ keepAliveSegment)"
    by (simp add: decompress_def twoSegmentFrame_def)
  have d2: "decompress exampleX (frameOf exampleX lateThrowFrame) lateThrowFrame =
              Some (keepAliveSegment @ ipcSegment)"
    by (simp add: decompress_def lateThrowFrame_def)
  from message_iff_ipc_turn_returns [OF d1 two_segment_frame_events]
  have completed: "\<exists>segs. length segs = segmentCount (frameOf exampleX twoSegmentFrame) \<and>
      parsedInOrder exampleX (ipcSegment @ keepAliveSegment) 0 segs \<and>
      (\<forall>s. SegmentEv s \<in> set twoSegmentEvents \<longleftrightarrow> s \<in> set segs) \<and>
      (\<forall>s \<in> set segs.
         (\<exists>n. Message n s \<in> set twoSegmentEvents) \<longleftrightarrow>
         segmentType (header s) = SegmentType_Ipc exampleX)"
    by blast
  from message_iff_ipc_turn_returns [OF d2 late_throw_frame]
  obtain segs names where h:
    "length names = length segs \<and>
     parsedInOrder exampleX (keepAliveSegment @ ipcSegment) 0 segs \<and>
     list_all (nonIpcBare exampleX) segs \<and>
     [SegmentEv (plainSegment keepAliveHeader)] =
       concat (map2 (expectedEvents exampleX) names segs) @
       (if Threw (OtherError ''decoder failed'') = Completed
        then [PacketEv \<lparr>source = \<lparr>address = ''10.0.0.1'', port = 54992\<rparr>,
                        destination = \<lparr>address = ''10.0.0.2'', port = 50000\<rparr>,
                        childFrame = \<lparr>cf_header = frameOf exampleX lateThrowFrame,
                                       segments = segs\<rparr>\<rparr>,
              Diagnostics (perf_end exampleX - perf_start exampleX)]
        else []) \<and>
     (\<forall>s. SegmentEv s \<in> set [SegmentEv (plainSegment keepAliveHeader)] \<longleftrightarrow> s \<in> set segs) \<and>
     (\<forall>s \<in> set segs.
        (\<exists>n. Message n s \<in> set [SegmentEv (plainSegment keepAliveHeader)]) \<longleftrightarrow>
        segmentType (header s) = SegmentType_Ipc exampleX) \<and>
     (\<forall>n s. Message n s \<in> set [SegmentEv (plainSegment keepAliveHeader)] \<longrightarrow>
        s \<in> set segs \<and> segmentType (header s) = SegmentType_Ipc exampleX) \<and>
     Threw (OtherError ''decoder failed'') \<noteq> Dropped \<and>
     (Threw (OtherError ''decoder failed'') = Completed \<longrightarrow>
        length segs = segmentCount (frameOf exampleX lateThrowFrame)) \<and>
     (\<forall>e. Threw (OtherError ''decoder failed'') = Threw e \<longrightarrow>
        length segs < segmentCount (frameOf exampleX lateThrowFrame) \<and>
        processSegment exampleX (exampleThis throwing) (keepAliveSegment @ ipcSegment)
          (endOf segs) = ([], Inl e) \<and>
        (\<forall>sh. parseSegmentHeader exampleX (drop (endOf segs) (keepAliveSegment @ ipcSegment)) =
               Inr sh \<longrightarrow> segmentType sh = SegmentType_Ipc exampleX))"
    by (elim exE) (rule that)
  from h have s:
    "\<forall>s. SegmentEv s \<in> set [SegmentEv (plainSegment keepAliveHeader)] \<longleftrightarrow> s \<in> set segs"
    by (elim conjE)
  from h have t: "\<forall>e. Threw (OtherError ''decoder failed'') = Threw e \<longrightarrow>
        length segs < segmentCount (frameOf exampleX lateThrowFrame) \<and>
        processSegment exampleX (exampleThis throwing) (keepAliveSegment @ ipcSegment)
          (endOf segs) = ([], Inl e) \<and>
        (\<forall>sh. parseSegmentHeader exampleX (drop (endOf segs) (keepAliveSegment @ ipcSegment)) =
               Inr sh \<longrightarrow> segmentType sh = SegmentType_Ipc exampleX)"
    by (elim conjE)
  from t have "length segs < segmentCount (frameOf exampleX lateThrowFrame) \<and>
      processSegment exampleX (exampleThis throwing) (keepAliveSegment @ ipcSegment) (endOf segs) =
        ([], Inl (OtherError ''decoder failed''))"
    by simp
  with s have thrown: "\<exists>segs. length segs < segmentCount (frameOf exampleX lateThrowFrame) \<and>
      (\<forall>s. SegmentEv s \<in> set [SegmentEv (plainSegment keepAliveHeader)] \<longleftrightarrow> s \<in> set segs) \<and>
      processSegment exampleX (exampleThis throwing) (keepAliveSegment @ ipcSegment) (endOf segs) =
        ([], Inl (OtherError ''decoder failed''))"
    by blast
  from two_segment_frame_events late_throw_frame completed thrown show ?thesis by blast
qed

section \<open>Message names and decoding\<close>

lemma typeNameOf_entry: "opcodes t = Some (c # cs) \<Longrightarrow> typeNameOf opcodes t = toLowerCase c # cs"
  by (simp add: typeNameOf_def lowerFirst_def)

lemma typeNameOf_unknown:
  "opcodes t = None \<or> opcodes t = Some [] \<Longrightarrow> typeNameOf opcodes t = ''unknown''"
  by (auto simp: typeNameOf_def lowerFirst_def toLowerCase_def)

lemma unknown_not_found: "loadPacketProcessors impl ''unknown'' = None"
  by (simp add: loadPacketProcessors_def processorNames_def Object_prototype_def)

lemma not_inherited: "n \<notin> set prototypeNames \<Longrightarrow> Object_prototype n = None"
  by (simp add: Object_prototype_def prototypeNames_def)

text \<open>
  C6 as the specification states it: the message name is the entry of the opcode map with
  its first character lowered, \<open>"unknown"\<close> when the opcode is absent, and a decoder runs
  only when the registry has an entry for the name and the constants are loaded. Two
  entries show otherwise. The name \<open>ToString\<close> lowers to \<open>toString\<close>, which is none of the
  57 registered names; the lookup of line 222 finds the member the registry object
  inherits, line 224 calls it, and the message carries \<open>"[object Object]"\<close> as
  \<open>parsedIpcData\<close>. And an entry that is the empty string is falsy in
  \<open>this._opcodes[type] || "unknown"\<close>: the name is \<open>"unknown"\<close>, not the entry.
\<close>

theorem inherited_member_counterexample:
  "oddOpcodes 7 = Some ''ToString'' \<and>
   ''toString'' \<notin> set processorNames \<and>
   processSegment exampleX oddThis toStringIpcSegment 0 =
     ([Message ''toString'' toStringSegment, SegmentEv toStringSegment], Inr toStringSegment) \<and>
   parsedIpcData toStringSegment = Some (JSString ''[object Object]'') \<and>
   oddOpcodes 8 = Some [] \<and>
   processSegment exampleX oddThis emptyNameIpcSegment 0 =
     ([Message ''unknown'' emptyNameSegment, SegmentEv emptyNameSegment], Inr emptyNameSegment)"
  using toString_turn emptyName_turn
  by (simp add: oddOpcodes_def processorNames_def toStringSegment_def)

text \<open>
  C6 as amended. For an IPC segment (its headers parsed, its data read) and an opcode
  map that is there: when the map has a non-empty entry for the opcode of the IPC header,
  the name of the message is that entry with its first character lowered; when the opcode
  is absent from the map, or its entry is the empty string, the name is \<open>"unknown"\<close>, the
  message carries the raw \<open>ipcData\<close> and \<open>parsedIpcData\<close> is undefined. When the name is
  one of the registered names and the constants are loaded, its processor runs on the raw
  data with the constants of the region: what it returns is \<open>parsedIpcData\<close> of the
  message and segment events, and what it throws leaves the turn with no event. When the
  constants are not loaded, or the name is neither registered nor the name of a member
  of \<open>Object.prototype\<close>, nothing runs and \<open>parsedIpcData\<close> is undefined. Whenever the turn
  returns, the two events carry the name, the parsed headers and the raw data, which are
  the bytes after the IPC header, padded with zeros.
\<close>

theorem message_name_and_decoding:
  assumes "parseSegmentHeader X (drop offset remainder) = Inr sh"
    and "readIpc X remainder offset sh = Inr (Some ih, Some d)"
    and "m_opcodes this = Some opcodes"
    and "m_packetDefs this = loadPacketProcessors impl"
  shows "(\<forall>c cs evs s.
            opcodes (ipcType ih) = Some (c # cs) \<and>
            processSegment X this remainder offset = (evs, Inr s) \<longrightarrow>
              evs = [Message (toLowerCase c # cs) s, SegmentEv s] \<and>
              header s = sh \<and> ipcHeader s = Some ih \<and> ipcData s = Some d) \<and>
         (opcodes (ipcType ih) = None \<or> opcodes (ipcType ih) = Some [] \<longrightarrow>
            processSegment X this remainder offset =
              ([Message ''unknown''
                  \<lparr>header = sh, ipcHeader = Some ih, ipcData = Some d, parsedIpcData = None\<rparr>,
                SegmentEv
                  \<lparr>header = sh, ipcHeader = Some ih, ipcData = Some d, parsedIpcData = None\<rparr>],
               Inr \<lparr>header = sh, ipcHeader = Some ih, ipcData = Some d, parsedIpcData = None\<rparr>)) \<and>
         (\<forall>c cs constants.
            opcodes (ipcType ih) = Some (c # cs) \<and>
            toLowerCase c # cs \<in> set processorNames \<and> m_constants this = Some constants \<longrightarrow>
              processSegment X this remainder offset =
                (case impl (toLowerCase c # cs) d (constants (m_region this)) of
                   Inl e \<Rightarrow> ([], Inl e)
                 | Inr v \<Rightarrow>
                     ([Message (toLowerCase c # cs)
                         \<lparr>header = sh, ipcHeader = Some ih, ipcData = Some d,
                            parsedIpcData = Some (Decoded v)\<rparr>,
                       SegmentEv
                         \<lparr>header = sh, ipcHeader = Some ih, ipcData = Some d,
                            parsedIpcData = Some (Decoded v)\<rparr>],
                      Inr \<lparr>header = sh, ipcHeader = Some ih, ipcData = Some d,
                             parsedIpcData = Some (Decoded v)\<rparr>))) \<and>
         (\<forall>c cs.
            opcodes (ipcType ih) = Some (c # cs) \<and>
            (m_constants this = None \<or>
             toLowerCase c # cs \<notin> set processorNames \<and> toLowerCase c # cs \<notin> set prototypeNames) \<longrightarrow>
              processSegment X this remainder offset =
                ([Message (toLowerCase c # cs)
                    \<lparr>header = sh, ipcHeader = Some ih, ipcData = Some d, parsedIpcData = None\<rparr>,
                  SegmentEv
                    \<lparr>header = sh, ipcHeader = Some ih, ipcData = Some d, parsedIpcData = None\<rparr>],
                 Inr \<lparr>header = sh, ipcHeader = Some ih, ipcData = Some d, parsedIpcData = None\<rparr>)) \<and>
         d = take (length d) (drop (offset + SEG_HEADER_SIZE X + IPC_HEADER_SIZE X) remainder) @
             replicate (length d -
               length (drop (offset + SEG_HEADER_SIZE X + IPC_HEADER_SIZE X) remainder)) 0"
proof -
  let ?s0 = "\<lparr>header = sh, ipcHeader = Some ih, ipcData = Some d, parsedIpcData = None\<rparr>"
  let ?run = "processSegment X this remainder offset"
  have run: "?run =
      (case unmarshal this (typeNameOf opcodes (ipcType ih)) ?s0 of
         Inl e \<Rightarrow> ([], Inl e)
       | Inr s \<Rightarrow> ([Message (typeNameOf opcodes (ipcType ih)) s, SegmentEv s], Inr s))"
    using assms(1-3) by (simp add: processSegment_def Let_def)
  have named: "evs = [Message (toLowerCase c # cs) s, SegmentEv s] \<and>
      header s = sh \<and> ipcHeader s = Some ih \<and> ipcData s = Some d"
    if "opcodes (ipcType ih) = Some (c # cs) \<and> ?run = (evs, Inr s)" for c cs evs s
  proof -
    from that have n: "typeNameOf opcodes (ipcType ih) = toLowerCase c # cs"
      by (simp add: typeNameOf_entry)
    from that run n have u: "unmarshal this (toLowerCase c # cs) ?s0 = Inr s"
      and ev: "evs = [Message (toLowerCase c # cs) s, SegmentEv s]"
      by (auto split: sum.splits)
    from unmarshal_keeps[OF u] ev show ?thesis by simp
  qed
  have unknown: "?run = ([Message ''unknown'' ?s0, SegmentEv ?s0], Inr ?s0)"
    if "opcodes (ipcType ih) = None \<or> opcodes (ipcType ih) = Some []"
  proof -
    have "unmarshal this ''unknown'' ?s0 = Inr ?s0"
      by (simp add: unmarshal_def assms(4) unknown_not_found)
    with run typeNameOf_unknown[of opcodes "ipcType ih"] that show ?thesis by simp
  qed
  have decoded: "?run =
      (case impl (toLowerCase c # cs) d (constants (m_region this)) of
         Inl e \<Rightarrow> ([], Inl e)
       | Inr v \<Rightarrow>
           ([Message (toLowerCase c # cs)
               \<lparr>header = sh, ipcHeader = Some ih, ipcData = Some d,
                  parsedIpcData = Some (Decoded v)\<rparr>,
             SegmentEv
               \<lparr>header = sh, ipcHeader = Some ih, ipcData = Some d,
                  parsedIpcData = Some (Decoded v)\<rparr>],
            Inr \<lparr>header = sh, ipcHeader = Some ih, ipcData = Some d,
                   parsedIpcData = Some (Decoded v)\<rparr>))"
    if "opcodes (ipcType ih) = Some (c # cs) \<and>
        toLowerCase c # cs \<in> set processorNames \<and> m_constants this = Some constants"
    for c cs constants
  proof -
    from that have n: "typeNameOf opcodes (ipcType ih) = toLowerCase c # cs"
      by (simp add: typeNameOf_entry)
    from that have "m_packetDefs this (toLowerCase c # cs) = Some (called (impl (toLowerCase c # cs)))"
      by (simp add: assms(4) loadPacketProcessors_def)
    with that have "unmarshal this (toLowerCase c # cs) ?s0 =
        (case impl (toLowerCase c # cs) d (constants (m_region this)) of
           Inl e \<Rightarrow> Inl e
         | Inr v \<Rightarrow> Inr (?s0\<lparr>parsedIpcData := Some (Decoded v)\<rparr>))"
      by (simp add: unmarshal_def called_def split: sum.splits)
    with run n show ?thesis by (simp split: sum.splits)
  qed
  have plain: "?run = ([Message (toLowerCase c # cs) ?s0, SegmentEv ?s0], Inr ?s0)"
    if "opcodes (ipcType ih) = Some (c # cs) \<and>
        (m_constants this = None \<or>
         toLowerCase c # cs \<notin> set processorNames \<and> toLowerCase c # cs \<notin> set prototypeNames)"
    for c cs
  proof -
    from that have n: "typeNameOf opcodes (ipcType ih) = toLowerCase c # cs"
      by (simp add: typeNameOf_entry)
    from that have "m_constants this = None \<or> m_packetDefs this (toLowerCase c # cs) = None"
      by (auto simp: assms(4) loadPacketProcessors_def not_inherited)
    then have "unmarshal this (toLowerCase c # cs) ?s0 = Inr ?s0"
      by (auto simp: unmarshal_def split: option.splits)
    with run n show ?thesis by simp
  qed
  have raw: "d = take (length d) (drop (offset + SEG_HEADER_SIZE X + IPC_HEADER_SIZE X) remainder) @
             replicate (length d -
               length (drop (offset + SEG_HEADER_SIZE X + IPC_HEADER_SIZE X) remainder)) 0"
    by (rule readIpc_data[OF assms(2)])
  from named unknown decoded plain raw show ?thesis by blast
qed

theorem message_name_and_decoding_witness:
  "exampleOpcodes 298 = Some ''NpcSpawn'' \<and>
   toLowerCase CHR ''N'' # ''pcSpawn'' = ''npcSpawn'' \<and>
   processSegment exampleX (exampleThis reading) (ipcSegment @ []) 0 =
     ([Message ''npcSpawn'' (npcSpawnSegment (Some (Decoded 5))),
       SegmentEv (npcSpawnSegment (Some (Decoded 5)))],
      Inr (npcSpawnSegment (Some (Decoded 5)))) \<and>
   exampleOpcodes 9 = None \<and>
   processSegment exampleX (exampleThis reading) (unknownIpcSegment @ []) 0 =
     ([Message ''unknown'' unknownSegment, SegmentEv unknownSegment], Inr unknownSegment)"
proof -
  have o: "m_opcodes (exampleThis reading) = Some exampleOpcodes"
    by (simp add: exampleThis_def)
  have r: "m_packetDefs (exampleThis reading) = loadPacketProcessors reading"
    by (simp add: exampleThis_def)
  have k: "exampleOpcodes (ipcType npcSpawnIpcHeader) = Some (CHR ''N'' # ''pcSpawn'')"
    and a: "exampleOpcodes (ipcType unknownIpcHeader) = None"
    by (simp_all add: exampleOpcodes_def npcSpawnIpcHeader_def unknownIpcHeader_def)
  have l: "toLowerCase CHR ''N'' # ''pcSpawn'' = ''npcSpawn''"
    by (simp add: toLowerCase_def)
  have n: "toLowerCase CHR ''N'' # ''pcSpawn'' \<in> set processorNames"
    unfolding l by (simp add: processorNames_def)
  have c: "m_constants (exampleThis reading) = Some exampleConstants"
    by (simp add: exampleThis_def)
  have v: "reading ''npcSpawn'' [5, 0, 0, 0] (exampleConstants (m_region (exampleThis reading))) = Inr 5"
    by (simp add: reading_def firstUInt32_def field_def le_simps)
  from message_name_and_decoding [OF example_parse_ipc(1) example_readIpc(1) o r, of "[]"] k n c
  have "processSegment exampleX (exampleThis reading) (ipcSegment @ []) 0 =
      (case reading (toLowerCase CHR ''N'' # ''pcSpawn'') [5, 0, 0, 0]
              (exampleConstants (m_region (exampleThis reading))) of
         Inl e \<Rightarrow> ([], Inl e)
       | Inr v \<Rightarrow>
           ([Message (toLowerCase CHR ''N'' # ''pcSpawn'')
               \<lparr>header = ipcSegmentHeader, ipcHeader = Some npcSpawnIpcHeader,
                  ipcData = Some [5, 0, 0, 0], parsedIpcData = Some (Decoded v)\<rparr>,
             SegmentEv
               \<lparr>header = ipcSegmentHeader, ipcHeader = Some npcSpawnIpcHeader,
                  ipcData = Some [5, 0, 0, 0], parsedIpcData = Some (Decoded v)\<rparr>],
            Inr \<lparr>header = ipcSegmentHeader, ipcHeader = Some npcSpawnIpcHeader,
                   ipcData = Some [5, 0, 0, 0], parsedIpcData = Some (Decoded v)\<rparr>))"
    by blast
  then have known: "processSegment exampleX (exampleThis reading) (ipcSegment @ []) 0 =
     ([Message ''npcSpawn'' (npcSpawnSegment (Some (Decoded 5))),
       SegmentEv (npcSpawnSegment (Some (Decoded 5)))],
      Inr (npcSpawnSegment (Some (Decoded 5))))"
    unfolding l by (simp add: v npcSpawnSegment_def)
  from message_name_and_decoding [OF example_parse_ipc(2) example_readIpc(2) o r, of "[]"] a
  have unknown: "processSegment exampleX (exampleThis reading) (unknownIpcSegment @ []) 0 =
     ([Message ''unknown'' unknownSegment, SegmentEv unknownSegment], Inr unknownSegment)"
    unfolding unknownSegment_def by blast
  have "exampleOpcodes 298 = Some ''NpcSpawn''" "exampleOpcodes 9 = None"
    by (simp_all add: exampleOpcodes_def)
  with l known unknown show ?thesis by blast
qed

section \<open>The reassembler\<close>

text \<open>The loop leaves a queue on which its condition fails as it is.\<close>

lemma drainFrames_waits:
  "waits X q \<Longrightarrow> drainFrames X this sa da sp dp q acc = Some (acc, q, None)"
  by (subst drainFrames.simps)
    (auto simp: waits_def tryGetFrameHeader_def QueueBuffer_peek_def QueueBuffer_size_def
      frameOf_def)

lemma front_frame:
  assumes "completeFrame X f"
  shows "tryGetFrameHeader X (f @ rest) = Some (frameOf X f)"
    and "QueueBuffer_pop (f @ rest) (frameSize (frameOf X f)) = (f, rest)"
    and "frameSize (frameOf X f) \<le> QueueBuffer_size (f @ rest)"
    and "isMagical X (frameOf X f)"
  using assms
  by (auto simp: completeFrame_def tryGetFrameHeader_def QueueBuffer_peek_def QueueBuffer_pop_def
      QueueBuffer_size_def frameOf_def)

text \<open>A complete magical frame at the front is popped and processed, and the loop goes on.\<close>

lemma drainFrames_step:
  assumes "completeFrame X f"
    and "returned (processFrame X this (frameOf X f) f sa da sp dp)"
  shows "drainFrames X this sa da sp dp (f @ rest) acc =
           drainFrames X this sa da sp dp rest
             (acc @ fst (processFrame X this (frameOf X f) f sa da sp dp))"
  using assms(2)
  by (subst drainFrames.simps)
    (auto simp: front_frame[OF assms(1)] returned_def split: prod.splits outcome.splits)

text \<open>
  An exception of \<open>_processFrame\<close> leaves the loop: the frame has been popped, and what
  follows it stays in the queue.
\<close>

lemma drainFrames_throw:
  assumes "completeFrame X f"
    and "processFrame X this (frameOf X f) f sa da sp dp = (evs, Threw e)"
  shows "drainFrames X this sa da sp dp (f @ rest) acc = Some (acc @ evs, rest, Some e)"
  using assms(2)
  by (subst drainFrames.simps) (auto simp: front_frame[OF assms(1)])

lemma drainFrames_returned:
  assumes "list_all (completeFrame X) fs"
    and "list_all (\<lambda>f. returned (processFrame X this (frameOf X f) f sa da sp dp)) fs"
  shows "drainFrames X this sa da sp dp (concat fs @ q) acc =
           drainFrames X this sa da sp dp q
             (acc @ concat (map (\<lambda>f. fst (processFrame X this (frameOf X f) f sa da sp dp)) fs))"
  using assms
proof (induction fs arbitrary: acc)
  case Nil
  then show ?case by simp
next
  case (Cons f fs)
  then show ?case by (simp add: drainFrames_step)
qed

lemma drainFrames_all:
  assumes "list_all (completeFrame X) fs"
    and "list_all (\<lambda>f. returned (processFrame X this (frameOf X f) f sa da sp dp)) fs"
    and "waits X rest"
  shows "drainFrames X this sa da sp dp (concat fs @ rest) acc =
           Some (acc @ concat (map (\<lambda>f. fst (processFrame X this (frameOf X f) f sa da sp dp)) fs),
                 rest, None)"
  by (simp add: drainFrames_returned[OF assms(1,2)] drainFrames_waits[OF assms(3)])

lemma drainFrames_first_throw:
  assumes "list_all (completeFrame X) (pre @ f # post)"
    and "list_all (\<lambda>f. returned (processFrame X this (frameOf X f) f sa da sp dp)) pre"
    and "processFrame X this (frameOf X f) f sa da sp dp = (evs, Threw e)"
  shows "drainFrames X this sa da sp dp (concat (pre @ f # post) @ rest) acc =
           Some (acc @ concat (map (\<lambda>f. fst (processFrame X this (frameOf X f) f sa da sp dp)) pre)
                   @ evs,
                 concat post @ rest, Some e)"
proof -
  from assms(1) have p: "list_all (completeFrame X) pre" and f: "completeFrame X f"
    by simp_all
  have "concat (pre @ f # post) @ rest = concat pre @ (f @ (concat post @ rest))"
    by simp
  then show ?thesis
    by (simp only: drainFrames_returned[OF p assms(2)] drainFrames_throw[OF f assms(3)] append_assoc)
qed

lemma first_not_returned:
  assumes "\<not> list_all (\<lambda>f. returned (g f)) fs"
  shows "\<exists>pre f post evs e. fs = pre @ f # post \<and> list_all (\<lambda>f. returned (g f)) pre \<and>
           g f = (evs, Threw e)"
proof -
  from assms have "\<exists>f \<in> set fs. \<not> returned (g f)" by (simp add: list_all_iff)
  from split_list_first_prop[OF this] obtain pre f post where
    s: "fs = pre @ f # post" "\<not> returned (g f)" "\<forall>y \<in> set pre. \<not> \<not> returned (g y)"
    by blast
  from s(2) obtain evs e where "g f = (evs, Threw e)"
    by (cases "g f") (auto simp: returned_def split: outcome.splits)
  with s show ?thesis by (auto simp: list_all_iff)
qed

text \<open>
  C7 as the specification states it: any number of complete magical frames buffered back
  to back are all drained. Two complete magical frames arrive in one payload on an empty
  queue; the decoder of the IPC segment of the first throws. Nothing around the call of
  \<open>_processFrame\<close> of line 145 catches: the exception leaves the loop, and the second
  frame, complete and magical, stays in the queue.
\<close>

theorem frame_left_queued_counterexample:
  "completeFrame exampleX ipcFrame \<and> completeFrame exampleX keepAliveFrame \<and>
   onPayload exampleX (exampleThis throwing) ''10.0.0.1'' ''10.0.0.2'' 54992 50000
     (ipcFrame @ keepAliveFrame) =
     Some ((exampleThis throwing)
             \<lparr>m_bufTable := (m_bufTable (exampleThis throwing))(50000 \<mapsto> keepAliveFrame)\<rparr>,
           [], Some (OtherError ''decoder failed''))"
proof -
  have c1: "completeFrame exampleX ipcFrame"
    using frameOf_header[of 76 1 0 ipcSegment]
    by (simp add: completeFrame_def ipcFrame_def exampleX_def example_isMagical_def ipcSegment_def)
  have c2: "completeFrame exampleX keepAliveFrame"
    using frameOf_header[of 40 0 0 "[]"]
    by (simp add: completeFrame_def keepAliveFrame_def exampleX_def example_isMagical_def)
  have "QueueBuffer_push (getBuffer (exampleThis throwing) 50000) (ipcFrame @ keepAliveFrame) =
          ipcFrame @ keepAliveFrame"
    by (simp add: QueueBuffer_push_def getBuffer_def exampleThis_def)
  with drainFrames_throw[OF c1 throwing_frame, of keepAliveFrame "[]"] c1 c2
  show ?thesis by (simp add: onPayload_def)
qed

text \<open>
  C7 as amended. The queue and the peek of the frame header are as the specification
  describes them. After a fragment is pushed to the queue of its flow, the loop exits,
  consuming nothing and without an error, when fewer than \<open>FRAME_HEADER_SIZE\<close> bytes are
  buffered, when the peeked header is not magical, or when fewer bytes are buffered than
  the header's size (a queue that \<open>waits\<close>); otherwise it pops exactly the header's size
  and processes those bytes as one frame. So when the queue holds any number of complete
  magical frames back to back, followed by bytes on which the loop waits, the loop
  returns. If \<open>_processFrame\<close> returns from every frame, all of them have been processed
  in arrival order and exactly the bytes after them are left in the queue. If it throws
  on one of them, the frames before that one have been processed in arrival order, that
  frame has been popped, its exception leaves the loop, and the frames after it stay in
  the queue, undrained, before the bytes that follow.
\<close>

theorem frames_drained_until_throw:
  assumes "QueueBuffer_push (getBuffer this dstPort) childFramePayload = concat fs @ rest"
    and "list_all (completeFrame X) fs"
    and "waits X rest"
  shows "(list_all (\<lambda>f. returned (processFrame X this (frameOf X f) f
                                    srcAddr dstAddr srcPort dstPort)) fs \<longrightarrow>
            onPayload X this srcAddr dstAddr srcPort dstPort childFramePayload =
              Some (this\<lparr>m_bufTable := (m_bufTable this)(dstPort \<mapsto> rest)\<rparr>,
                    concat (map (\<lambda>f. fst (processFrame X this (frameOf X f) f
                                             srcAddr dstAddr srcPort dstPort)) fs),
                    None)) \<and>
         (\<forall>pre f post evs e.
            fs = pre @ f # post \<and>
            list_all (\<lambda>f. returned (processFrame X this (frameOf X f) f
                                     srcAddr dstAddr srcPort dstPort)) pre \<and>
            processFrame X this (frameOf X f) f srcAddr dstAddr srcPort dstPort = (evs, Threw e) \<longrightarrow>
              onPayload X this srcAddr dstAddr srcPort dstPort childFramePayload =
                Some (this\<lparr>m_bufTable := (m_bufTable this)(dstPort \<mapsto> concat post @ rest)\<rparr>,
                      concat (map (\<lambda>f. fst (processFrame X this (frameOf X f) f
                                               srcAddr dstAddr srcPort dstPort)) pre) @ evs,
                      Some e)) \<and>
         (\<exists>r. onPayload X this srcAddr dstAddr srcPort dstPort childFramePayload = Some r)"
proof -
  let ?g = "\<lambda>f. processFrame X this (frameOf X f) f srcAddr dstAddr srcPort dstPort"
  let ?on = "onPayload X this srcAddr dstAddr srcPort dstPort childFramePayload"
  have all: "?on = Some (this\<lparr>m_bufTable := (m_bufTable this)(dstPort \<mapsto> rest)\<rparr>,
                         concat (map (\<lambda>f. fst (?g f)) fs), None)"
    if "list_all (\<lambda>f. returned (?g f)) fs"
    using drainFrames_all[OF assms(2) that assms(3), of "[]"] assms(1)
    by (simp add: onPayload_def)
  have thrown: "?on = Some (this\<lparr>m_bufTable := (m_bufTable this)(dstPort \<mapsto> concat post @ rest)\<rparr>,
                            concat (map (\<lambda>f. fst (?g f)) pre) @ evs, Some e)"
    if "fs = pre @ f # post \<and> list_all (\<lambda>f. returned (?g f)) pre \<and> ?g f = (evs, Threw e)"
    for pre f post evs e
  proof -
    from that assms(2) have c: "list_all (completeFrame X) (pre @ f # post)" by simp
    from that have r: "list_all (\<lambda>f. returned (?g f)) pre" and t: "?g f = (evs, Threw e)"
      by simp_all
    from drainFrames_first_throw[OF c r t, of rest "[]"] assms(1) that
    show ?thesis by (simp add: onPayload_def)
  qed
  have "\<exists>r. ?on = Some r"
  proof (cases "list_all (\<lambda>f. returned (?g f)) fs")
    case True
    from all[OF this] show ?thesis by blast
  next
    case False
    from first_not_returned[of ?g fs, OF this] obtain pre f post evs e where
      "fs = pre @ f # post \<and> list_all (\<lambda>f. returned (?g f)) pre \<and> ?g f = (evs, Threw e)"
      by blast
    from thrown[OF this] show ?thesis by blast
  qed
  with all thrown show ?thesis by blast
qed

theorem frames_drained_until_throw_witness:
  "onPayload exampleX (exampleThis reading) ''10.0.0.1'' ''10.0.0.2'' 54992 50000
     (keepAliveFrame @ twoSegmentFrame @ partialFrame) =
     Some ((exampleThis reading)
             \<lparr>m_bufTable := (m_bufTable (exampleThis reading))(50000 \<mapsto> partialFrame)\<rparr>,
           drainedEvents, None) \<and>
   onPayload exampleX (exampleThis throwing) ''10.0.0.1'' ''10.0.0.2'' 54992 50000
     (keepAliveFrame @ ipcFrame @ keepAliveFrame @ partialFrame) =
     Some ((exampleThis throwing)
             \<lparr>m_bufTable := (m_bufTable (exampleThis throwing))
                              (50000 \<mapsto> keepAliveFrame @ partialFrame)\<rparr>,
           [PacketEv (packetOf keepAliveFrame []), Diagnostics 1],
           Some (OtherError ''decoder failed''))"
proof -
  have p1: "QueueBuffer_push (getBuffer (exampleThis reading) 50000)
             (keepAliveFrame @ twoSegmentFrame @ partialFrame) =
           concat [keepAliveFrame, twoSegmentFrame] @ partialFrame"
    by (simp add: QueueBuffer_push_def getBuffer_def exampleThis_def)
  have p2: "QueueBuffer_push (getBuffer (exampleThis throwing) 50000)
             (keepAliveFrame @ ipcFrame @ keepAliveFrame @ partialFrame) =
           concat [keepAliveFrame, ipcFrame, keepAliveFrame] @ partialFrame"
    by (simp add: QueueBuffer_push_def getBuffer_def exampleThis_def)
  have c1: "completeFrame exampleX keepAliveFrame"
    using frameOf_header[of 40 0 0 "[]"]
    by (simp add: completeFrame_def keepAliveFrame_def exampleX_def example_isMagical_def)
  have c2: "completeFrame exampleX twoSegmentFrame"
    using frameOf_header[of 92 2 0 "ipcSegment @ keepAliveSegment"]
    by (simp add: completeFrame_def twoSegmentFrame_def exampleX_def example_isMagical_def
        ipcSegment_def keepAliveSegment_def)
  have c3: "completeFrame exampleX ipcFrame"
    using frameOf_header[of 76 1 0 ipcSegment]
    by (simp add: completeFrame_def ipcFrame_def exampleX_def example_isMagical_def ipcSegment_def)
  have a1: "list_all (completeFrame exampleX) [keepAliveFrame, twoSegmentFrame]"
    using c1 c2 by simp
  have a2: "list_all (completeFrame exampleX) [keepAliveFrame, ipcFrame, keepAliveFrame]"
    using c1 c3 by simp
  have w: "waits exampleX partialFrame"
    by (simp add: waits_def partialFrame_def)
  have r1: "list_all (\<lambda>f. returned (processFrame exampleX (exampleThis reading) (frameOf exampleX f) f
                         ''10.0.0.1'' ''10.0.0.2'' 54992 50000))
             [keepAliveFrame, twoSegmentFrame]"
    by (simp add: keepAlive_frame two_segment_frame_events returned_def)
  have r2: "[keepAliveFrame, ipcFrame, keepAliveFrame] = [keepAliveFrame] @ ipcFrame # [keepAliveFrame] \<and>
            list_all (\<lambda>f. returned (processFrame exampleX (exampleThis throwing) (frameOf exampleX f) f
                         ''10.0.0.1'' ''10.0.0.2'' 54992 50000)) [keepAliveFrame] \<and>
            processFrame exampleX (exampleThis throwing) (frameOf exampleX ipcFrame) ipcFrame
              ''10.0.0.1'' ''10.0.0.2'' 54992 50000 = ([], Threw (OtherError ''decoder failed''))"
    by (simp add: keepAlive_frame throwing_frame returned_def)
  from frames_drained_until_throw [OF p1 a1 w, of "''10.0.0.1''" "''10.0.0.2''" 54992] r1
  have drained: "onPayload exampleX (exampleThis reading) ''10.0.0.1'' ''10.0.0.2'' 54992 50000
     (keepAliveFrame @ twoSegmentFrame @ partialFrame) =
     Some ((exampleThis reading)
             \<lparr>m_bufTable := (m_bufTable (exampleThis reading))(50000 \<mapsto> partialFrame)\<rparr>,
           drainedEvents, None)"
    by (simp add: keepAlive_frame two_segment_frame_events drainedEvents_def)
  from frames_drained_until_throw [OF p2 a2 w, of "''10.0.0.1''" "''10.0.0.2''" 54992,
      THEN conjunct2, THEN conjunct1, rule_format, OF r2]
  have thrown: "onPayload exampleX (exampleThis throwing) ''10.0.0.1'' ''10.0.0.2'' 54992 50000
     (keepAliveFrame @ ipcFrame @ keepAliveFrame @ partialFrame) =
     Some ((exampleThis throwing)
             \<lparr>m_bufTable := (m_bufTable (exampleThis throwing))
                              (50000 \<mapsto> keepAliveFrame @ partialFrame)\<rparr>,
           [PacketEv (packetOf keepAliveFrame []), Diagnostics 1],
           Some (OtherError ''decoder failed''))"
    by (simp add: keepAlive_frame)
  from drained thrown show ?thesis by (rule conjI)
qed

section \<open>Segment count and body length\<close>

text \<open>
  C8 as the specification states it: when the body length does not match \<open>segmentCount\<close>, the
  processor processes as many segments as fit in the body, without erroring. The loop of
  line 196 is bounded by \<open>segmentCount\<close> alone, and nothing compares a segment's size or
  an offset with the length of the body. In the example the body is 16 bytes long and its
  only segment header announces 64 bytes: no segment fits, and the segment is processed
  and emitted all the same.
\<close>

theorem segment_fit_counterexample:
  "length overlongFrame - FRAME_HEADER_SIZE exampleX = 16 \<and>
   segSize (header (plainSegment overlongHeader)) = 64 \<and>
   processFrame exampleX (exampleThis reading) (frameOf exampleX overlongFrame) overlongFrame
     ''10.0.0.1'' ''10.0.0.2'' 54992 50000 =
     ([SegmentEv (plainSegment overlongHeader),
       PacketEv (packetOf overlongFrame [plainSegment overlongHeader]), Diagnostics 1],
      Completed)"
  using overlong_frame
  by (simp add: overlongFrame_def overlongSegment_def plainSegment_def overlongHeader_def)

text \<open>
  C8 as amended. The processor does not compare the body length with \<open>segmentCount\<close>: it
  runs \<open>segmentCount\<close> turns of the segment loop unless a turn throws. So a frame that
  completes has emitted exactly \<open>segmentCount\<close> segment events whatever the length of its
  body, a frame that ends in an exception fewer, and bytes after the last of them are
  given no segment of their own. A frame with \<open>segmentCount = 0\<close> that is not dropped
  emits a packet event with an empty segment list and a diagnostics event, and no segment
  event. No error event is emitted in any case.
\<close>

theorem segment_count_not_checked:
  assumes "processFrame X this frameHeader buf srcAddr dstAddr srcPort dstPort = (evs, out)"
  shows "(out = Completed \<longrightarrow> length (filter isSegmentEv evs) = segmentCount frameHeader) \<and>
         (\<forall>e. out = Threw e \<longrightarrow> length (filter isSegmentEv evs) < segmentCount frameHeader) \<and>
         (segmentCount frameHeader = 0 \<and> out \<noteq> Dropped \<longrightarrow>
            out = Completed \<and>
            evs = [PacketEv \<lparr>source = \<lparr>address = srcAddr, port = srcPort\<rparr>,
                             destination = \<lparr>address = dstAddr, port = dstPort\<rparr>,
                             childFrame = \<lparr>cf_header = frameHeader, segments = []\<rparr>\<rparr>,
                   Diagnostics (perf_end X - perf_start X)]) \<and>
         (\<forall>e. Error e \<notin> set evs)"
proof -
  have noerr: "\<forall>e. Error e \<notin> set evs" using processFrame_no_error[OF assms] by blast
  from processFrame_cases[OF assms] show ?thesis
  proof (elim disjE exE conjE)
    fix rem lev r
    assume l: "segmentLoop X this rem (segmentCount frameHeader) 0 = (lev, r)"
      and c: "case r of Inl e \<Rightarrow> out = Threw e \<and> evs = lev
              | Inr segs \<Rightarrow> out = Completed \<and> evs = lev @
                   [PacketEv \<lparr>source = \<lparr>address = srcAddr, port = srcPort\<rparr>,
                              destination = \<lparr>address = dstAddr, port = dstPort\<rparr>,
                              childFrame = \<lparr>cf_header = frameHeader, segments = segs\<rparr>\<rparr>,
                    Diagnostics (perf_end X - perf_start X)]"
    from segmentLoop_events[OF l] obtain segs names where
      len: "length names = length segs"
      and lev: "lev = concat (map2 (expectedEvents X) names segs)"
      and r: "case r of Inr segs' \<Rightarrow> segs' = segs \<and> length segs = segmentCount frameHeader
              | Inl e \<Rightarrow> length segs < segmentCount frameHeader" by blast
    have cnt: "length (filter isSegmentEv lev) = length segs"
      unfolding lev by (rule expected_count[OF len])
    show ?thesis
      using c r cnt noerr lev by (cases r) (auto simp: isSegmentEv_def)
  qed (use noerr in simp)
qed

theorem segment_count_not_checked_witness:
  "processFrame exampleX (exampleThis reading) (frameOf exampleX overlongFrame) overlongFrame
     ''10.0.0.1'' ''10.0.0.2'' 54992 50000 =
     ([SegmentEv (plainSegment overlongHeader),
       PacketEv (packetOf overlongFrame [plainSegment overlongHeader]), Diagnostics 1],
      Completed) \<and>
   length (filter isSegmentEv
     [SegmentEv (plainSegment overlongHeader),
      PacketEv (packetOf overlongFrame [plainSegment overlongHeader]), Diagnostics 1]) =
     segmentCount (frameOf exampleX overlongFrame) \<and>
   segmentCount (frameOf exampleX overlongFrame) = 1"
proof -
  have "segmentCount (frameOf exampleX overlongFrame) = 1"
    by (simp add: overlongFrame_def)
  with segment_count_not_checked [OF overlong_frame] overlong_frame
  show ?thesis by blast
qed

section \<open>The \<open>ready\<close> event\<close>

lemma updateOpcodesCache_keeps [simp]:
  "m_opcodeLists (updateOpcodesCache this) = m_opcodeLists this"
  "m_constants (updateOpcodesCache this) = m_constants this"
  by (simp_all add: updateOpcodesCache_def Let_def)

lemma setRegion_keeps [simp]:
  "m_opcodeLists (setRegion r this) = m_opcodeLists this"
  "m_constants (setRegion r this) = m_constants this"
  by (simp_all add: setRegion_def)

lemma run_append:
  "run i (xs @ ys) = (case run i xs of None \<Rightarrow> None | Some j \<Rightarrow> run j ys)"
  by (induction xs arbitrary: i) (simp_all split: option.splits)

lemma run_snoc:
  "run i (acts @ [a]) = Some i' \<longleftrightarrow> (\<exists>j. run i acts = Some j \<and> step j a = Some i')"
  by (simp add: run_append split: option.splits)

lemma subscribers_append: "subscribers ev (xs @ ys) = subscribers ev xs @ subscribers ev ys"
  by (induction ev xs rule: subscribers.induct) simp_all

text \<open>
  Subscribing and setting the region are always possible, emit nothing, call no listener
  and leave the phase and the stored tables as they are.
\<close>

lemma run_passive:
  "list_all isPassive acts \<Longrightarrow>
     \<exists>j. run i acts = Some j \<and> phase j = phase i \<and> emitted j = emitted i \<and>
         delivered j = delivered i \<and>
         m_opcodeLists (capture j) = m_opcodeLists (capture i) \<and>
         m_constants (capture j) = m_constants (capture i) \<and>
         (\<forall>ev. map snd (filter (\<lambda>(n, l). n = ev) (listeners j)) =
               map snd (filter (\<lambda>(n, l). n = ev) (listeners i)) @ subscribers ev acts)"
proof (induction acts arbitrary: i)
  case Nil
  then show ?case by simp
next
  case (Cons a acts)
  from Cons.prems have p: "isPassive a" and ps: "list_all isPassive acts" by simp_all
  from p obtain i' where s: "step i a = Some i'" and k: "phase i' = phase i"
    "emitted i' = emitted i" "delivered i' = delivered i"
    "m_opcodeLists (capture i') = m_opcodeLists (capture i)"
    "m_constants (capture i') = m_constants (capture i)"
    and ls: "\<forall>ev. map snd (filter (\<lambda>(n, l). n = ev) (listeners i')) =
               map snd (filter (\<lambda>(n, l). n = ev) (listeners i)) @ subscribers ev [a]"
    by (cases a) (auto simp: isPassive_def on_def)
  from Cons.IH[OF ps, of i'] obtain j where j: "run i' acts = Some j" "phase j = phase i'"
    "emitted j = emitted i'" "delivered j = delivered i'"
    "m_opcodeLists (capture j) = m_opcodeLists (capture i')"
    "m_constants (capture j) = m_constants (capture i')"
    and lj: "\<forall>ev. map snd (filter (\<lambda>(n, l). n = ev) (listeners j)) =
               map snd (filter (\<lambda>(n, l). n = ev) (listeners i')) @ subscribers ev acts"
    by blast
  have "subscribers ev (a # acts) = subscribers ev [a] @ subscribers ev acts" for ev
    using subscribers_append[of ev "[a]" acts] by simp
  with ls lj have "\<forall>ev. map snd (filter (\<lambda>(n, l). n = ev) (listeners j)) =
               map snd (filter (\<lambda>(n, l). n = ev) (listeners i)) @ subscribers ev (a # acts)"
    by simp
  with s j k show ?case by simp
qed

lemma emit_delivered:
  "delivered (emit ev i) =
     delivered i @ map (\<lambda>l. (l, ev)) (map snd (filter (\<lambda>(n, l). n = ev) (listeners i)))"
  by (simp add: emit_def split_def comp_def)

text \<open>The promise chain, seen from a fresh instance: both downloads settle, in order.\<close>

lemma both_arrive:
  assumes "list_all isPassive (pre @ mid @ post)"
  shows "\<exists>i. run (new_CaptureInterface impl r)
                (pre @ OpcodesArrive ols # mid @ ConstantsArrive c # post) = Some i \<and>
             emitted i = [''ready''] \<and>
             delivered i = map (\<lambda>l. (l, ''ready'')) (subscribers ''ready'' (pre @ mid)) \<and>
             m_opcodeLists (capture i) = Some ols \<and> m_constants (capture i) = Some c"
proof -
  let ?init = "new_CaptureInterface impl r"
  from assms have p1: "list_all isPassive pre" and p2: "list_all isPassive mid"
    and p3: "list_all isPassive post" by simp_all
  from run_passive[OF p1, of ?init] obtain j1 where j1: "run ?init pre = Some j1"
    "phase j1 = LoadingOpcodes" "emitted j1 = []" "delivered j1 = []"
    and l1: "map snd (filter (\<lambda>(n, l). n = ''ready'') (listeners j1)) = subscribers ''ready'' pre"
    by (auto simp: new_CaptureInterface_def)
  define j2 where "j2 = j1\<lparr>capture := updateOpcodesCache ((capture j1)\<lparr>m_opcodeLists := Some ols\<rparr>),
                          phase := LoadingConstants\<rparr>"
  have s2: "step j1 (OpcodesArrive ols) = Some j2"
    by (simp add: j1 j2_def)
  from run_passive[OF p2, of j2] obtain j3 where j3: "run j2 mid = Some j3"
    "phase j3 = LoadingConstants" "emitted j3 = []" "delivered j3 = []"
    "m_opcodeLists (capture j3) = Some ols"
    and l3: "map snd (filter (\<lambda>(n, l). n = ''ready'') (listeners j3)) =
               subscribers ''ready'' pre @ subscribers ''ready'' mid"
    using l1 by (auto simp: j2_def j1)
  define j4 where "j4 = emit ''ready'' (j3\<lparr>capture := (capture j3)\<lparr>m_constants := Some c\<rparr>,
                                          phase := Loaded\<rparr>)"
  have s4: "step j3 (ConstantsArrive c) = Some j4"
    by (simp add: j3 j4_def)
  have e4: "emitted j4 = [''ready'']"
    by (simp add: j4_def emit_def j3)
  have d4: "delivered j4 = map (\<lambda>l. (l, ''ready'')) (subscribers ''ready'' (pre @ mid))"
    unfolding j4_def emit_delivered by (simp add: j3 l3 subscribers_append)
  have t4: "m_opcodeLists (capture j4) = Some ols" "m_constants (capture j4) = Some c"
    by (simp_all add: j4_def emit_def j3)
  from run_passive[OF p3, of j4] obtain j5 where j5: "run j4 post = Some j5"
    "emitted j5 = emitted j4" "delivered j5 = delivered j4"
    "m_opcodeLists (capture j5) = m_opcodeLists (capture j4)"
    "m_constants (capture j5) = m_constants (capture j4)"
    by blast
  have "run ?init (pre @ OpcodesArrive ols # mid @ ConstantsArrive c # post) =
          run j1 (OpcodesArrive ols # mid @ ConstantsArrive c # post)"
    by (simp add: run_append j1(1))
  also have "\<dots> = run j2 (mid @ ConstantsArrive c # post)"
    by (simp del: step.simps add: s2)
  also have "\<dots> = run j3 (ConstantsArrive c # post)"
    by (simp add: run_append j3(1))
  also have "\<dots> = run j4 post"
    by (simp del: step.simps add: s4)
  finally have "run ?init (pre @ OpcodesArrive ols # mid @ ConstantsArrive c # post) = Some j5"
    by (simp add: j5(1))
  with j5 e4 d4 t4 show ?thesis by simp
qed

text \<open>
  What the actions of a run have been, by the phase that the chain has reached; nothing
  has been emitted or delivered before the chain finishes.
\<close>

lemma run_shape:
  assumes "run (new_CaptureInterface impl r) acts = Some i"
  shows "(phase i = LoadingOpcodes \<longrightarrow> list_all isPassive acts) \<and>
         (phase i = LoadingConstants \<longrightarrow>
            (\<exists>pre ols mid. acts = pre @ OpcodesArrive ols # mid \<and> list_all isPassive (pre @ mid))) \<and>
         (phase i = Loaded \<longrightarrow>
            (\<exists>pre ols mid c post.
               acts = pre @ OpcodesArrive ols # mid @ ConstantsArrive c # post \<and>
               list_all isPassive (pre @ mid @ post))) \<and>
         (phase i \<noteq> Loaded \<longrightarrow> emitted i = [] \<and> delivered i = [])"
  using assms
proof (induction acts arbitrary: i rule: rev_induct)
  case Nil
  then show ?case by (auto simp: new_CaptureInterface_def)
next
  case (snoc a acts)
  from snoc.prems obtain j where j: "run (new_CaptureInterface impl r) acts = Some j"
    and s: "step j a = Some i"
    unfolding run_snoc by blast
  note ih = snoc.IH[OF j]
  show ?case
  proof (cases a)
    case (OpcodesArrive ols)
    with s have pj: "phase j = LoadingOpcodes" and pi: "phase i = LoadingConstants"
      and q: "emitted i = emitted j" "delivered i = delivered j"
      by (auto split: if_splits)
    from ih pj have "list_all isPassive acts" "emitted j = []" "delivered j = []" by simp_all
    with OpcodesArrive q have quiet: "emitted i = []" "delivered i = []"
      and "acts @ [a] = acts @ OpcodesArrive ols # [] \<and> list_all isPassive (acts @ [])"
      by simp_all
    then have "\<exists>pre ols mid. acts @ [a] = pre @ OpcodesArrive ols # mid \<and>
                 list_all isPassive (pre @ mid)"
      by (intro exI)
    with pi quiet show ?thesis by simp
  next
    case (ConstantsArrive c)
    with s have pj: "phase j = LoadingConstants" and pi: "phase i = Loaded"
      by (auto simp: emit_def split: if_splits)
    from ih pj obtain pre ols mid where
      "acts = pre @ OpcodesArrive ols # mid" "list_all isPassive (pre @ mid)" by auto
    then have "acts @ [a] = pre @ OpcodesArrive ols # mid @ ConstantsArrive c # [] \<and>
               list_all isPassive (pre @ mid @ [])"
      using ConstantsArrive by simp
    then have "\<exists>pre ols mid c post.
                 acts @ [a] = pre @ OpcodesArrive ols # mid @ ConstantsArrive c # post \<and>
                 list_all isPassive (pre @ mid @ post)"
      by (intro exI)
    with pi show ?thesis by simp
  next
    case DownloadFails
    with s have pj: "phase j \<noteq> Loaded" and pi: "phase i = LoadFailed"
      and q: "emitted i = emitted j" "delivered i = delivered j"
      by (auto split: if_splits)
    with ih show ?thesis by simp
  next
    case (On ev l)
    with s have k: "phase i = phase j" "emitted i = emitted j" "delivered i = delivered j"
      by (auto simp: on_def)
    have pa: "isPassive a" using On by (simp add: isPassive_def)
    show ?thesis
    proof (intro conjI impI)
      assume "phase i = LoadingOpcodes"
      with ih k pa show "list_all isPassive (acts @ [a])" by simp
    next
      assume "phase i = LoadingConstants"
      with ih k obtain pre ols mid where
        "acts = pre @ OpcodesArrive ols # mid" "list_all isPassive (pre @ mid)" by auto
      with pa have "acts @ [a] = pre @ OpcodesArrive ols # (mid @ [a]) \<and>
                    list_all isPassive (pre @ (mid @ [a]))" by simp
      then show "\<exists>pre ols mid. acts @ [a] = pre @ OpcodesArrive ols # mid \<and>
                   list_all isPassive (pre @ mid)" by (intro exI)
    next
      assume "phase i = Loaded"
      with ih k obtain pre ols mid c post where
        "acts = pre @ OpcodesArrive ols # mid @ ConstantsArrive c # post"
        "list_all isPassive (pre @ mid @ post)" by auto
      with pa have "acts @ [a] = pre @ OpcodesArrive ols # mid @ ConstantsArrive c # (post @ [a]) \<and>
                    list_all isPassive (pre @ mid @ (post @ [a]))" by simp
      then show "\<exists>pre ols mid c post.
                   acts @ [a] = pre @ OpcodesArrive ols # mid @ ConstantsArrive c # post \<and>
                   list_all isPassive (pre @ mid @ post)" by (intro exI)
    next
      assume "phase i \<noteq> Loaded"
      with ih k show "emitted i = []" by simp
    next
      assume "phase i \<noteq> Loaded"
      with ih k show "delivered i = []" by simp
    qed
  next
    case (SetRegion r')
    with s have k: "phase i = phase j" "emitted i = emitted j" "delivered i = delivered j"
      by auto
    have pa: "isPassive a" using SetRegion by (simp add: isPassive_def)
    show ?thesis
    proof (intro conjI impI)
      assume "phase i = LoadingOpcodes"
      with ih k pa show "list_all isPassive (acts @ [a])" by simp
    next
      assume "phase i = LoadingConstants"
      with ih k obtain pre ols mid where
        "acts = pre @ OpcodesArrive ols # mid" "list_all isPassive (pre @ mid)" by auto
      with pa have "acts @ [a] = pre @ OpcodesArrive ols # (mid @ [a]) \<and>
                    list_all isPassive (pre @ (mid @ [a]))" by simp
      then show "\<exists>pre ols mid. acts @ [a] = pre @ OpcodesArrive ols # mid \<and>
                   list_all isPassive (pre @ mid)" by (intro exI)
    next
      assume "phase i = Loaded"
      with ih k obtain pre ols mid c post where
        "acts = pre @ OpcodesArrive ols # mid @ ConstantsArrive c # post"
        "list_all isPassive (pre @ mid @ post)" by auto
      with pa have "acts @ [a] = pre @ OpcodesArrive ols # mid @ ConstantsArrive c # (post @ [a]) \<and>
                    list_all isPassive (pre @ mid @ (post @ [a]))" by simp
      then show "\<exists>pre ols mid c post.
                   acts @ [a] = pre @ OpcodesArrive ols # mid @ ConstantsArrive c # post \<and>
                   list_all isPassive (pre @ mid @ post)" by (intro exI)
    next
      assume "phase i \<noteq> Loaded"
      with ih k show "emitted i = []" by simp
    next
      assume "phase i \<noteq> Loaded"
      with ih k show "delivered i = []" by simp
    qed
  qed
qed

lemmas life_defs =
  new_CaptureInterface_def emit_def on_def observe_def updateOpcodesCache_def setRegion_def

text \<open>
  C9 as the specification states it: \<open>ready\<close> fires exactly once after both tables have loaded,
  and a consumer that subscribes after it has fired receives it at once. \<open>CaptureInterface\<close>
  takes \<open>on\<close> from \<open>EventEmitter\<close> as it is, which only registers the listener; nothing
  replays an event. In the example listener 1 subscribes to \<open>ready\<close> after both downloads:
  \<open>ready\<close> has been emitted, the listener is registered, and it has not been called.
\<close>

theorem late_subscriber_counterexample:
  "map_option observe
     (run (new_CaptureInterface reading Global)
        [OpcodesArrive exampleLists, ConstantsArrive exampleConstants, On ''ready'' 1]) =
     Some (Loaded, [''ready''], [(''ready'', 1)], [])"
  by (simp add: life_defs)

text \<open>
  C9 as amended. The \<open>ready\<close> event fires at most once, and exactly once when both
  downloads succeed. Whenever the opcode lists arrive and then the constants, with any
  subscriptions and region changes before, between and after, \<open>ready\<close> has been emitted
  exactly once, both tables are stored, and \<open>ready\<close> has been delivered, once each and in
  order, to the listeners that subscribed to it before the constants arrived, and to no
  other: a consumer that subscribes after \<open>ready\<close> has fired does not receive it. In
  every other run of an instance nothing has been emitted and nothing delivered.
\<close>

theorem ready_fires_once:
  "(\<forall>pre ols mid c post.
      list_all isPassive (pre @ mid @ post) \<longrightarrow>
        (\<exists>i. run (new_CaptureInterface impl r)
                (pre @ OpcodesArrive ols # mid @ ConstantsArrive c # post) = Some i \<and>
             emitted i = [''ready''] \<and>
             delivered i = map (\<lambda>l. (l, ''ready'')) (subscribers ''ready'' (pre @ mid)) \<and>
             m_opcodeLists (capture i) = Some ols \<and> m_constants (capture i) = Some c)) \<and>
   (\<forall>acts i.
      run (new_CaptureInterface impl r) acts = Some i \<longrightarrow>
        (\<exists>pre ols mid c post.
           acts = pre @ OpcodesArrive ols # mid @ ConstantsArrive c # post \<and>
           list_all isPassive (pre @ mid @ post)) \<or>
        emitted i = [] \<and> delivered i = [])"
proof -
  have fires: "\<exists>i. run (new_CaptureInterface impl r)
                (pre @ OpcodesArrive ols # mid @ ConstantsArrive c # post) = Some i \<and>
             emitted i = [''ready''] \<and>
             delivered i = map (\<lambda>l. (l, ''ready'')) (subscribers ''ready'' (pre @ mid)) \<and>
             m_opcodeLists (capture i) = Some ols \<and> m_constants (capture i) = Some c"
    if "list_all isPassive (pre @ mid @ post)" for pre ols mid c post
    by (rule both_arrive[OF that])
  have only: "(\<exists>pre ols mid c post.
           acts = pre @ OpcodesArrive ols # mid @ ConstantsArrive c # post \<and>
           list_all isPassive (pre @ mid @ post)) \<or>
        emitted i = [] \<and> delivered i = []"
    if "run (new_CaptureInterface impl r) acts = Some i" for acts i
    using run_shape[OF that] by (cases "phase i = Loaded") simp_all
  from fires only show ?thesis by blast
qed

theorem ready_fires_once_witness:
  "(\<exists>i. run (new_CaptureInterface reading Global)
          [On ''ready'' 1, OpcodesArrive exampleLists, On ''ready'' 2, On ''message'' 4,
           ConstantsArrive exampleConstants, On ''ready'' 3] = Some i \<and>
        emitted i = [''ready''] \<and>
        delivered i = [(1, ''ready''), (2, ''ready'')] \<and>
        m_opcodeLists (capture i) = Some exampleLists \<and>
        m_constants (capture i) = Some exampleConstants) \<and>
   (\<exists>i. run (new_CaptureInterface reading Global)
          [On ''ready'' 1, OpcodesArrive exampleLists, DownloadFails] = Some i \<and>
        emitted i = [] \<and> delivered i = [])"
proof -
  have p: "list_all isPassive ([On ''ready'' 1] @ [On ''ready'' 2, On ''message'' 4] @ [On ''ready'' 3])"
    by (simp add: isPassive_def)
  from ready_fires_once [of reading Global, THEN conjunct1, rule_format, OF p,
      of exampleLists exampleConstants]
  have fires: "\<exists>i. run (new_CaptureInterface reading Global)
          [On ''ready'' 1, OpcodesArrive exampleLists, On ''ready'' 2, On ''message'' 4,
           ConstantsArrive exampleConstants, On ''ready'' 3] = Some i \<and>
        emitted i = [''ready''] \<and>
        delivered i = [(1, ''ready''), (2, ''ready'')] \<and>
        m_opcodeLists (capture i) = Some exampleLists \<and>
        m_constants (capture i) = Some exampleConstants"
    by simp
  let ?acts = "[On ''ready'' 1, OpcodesArrive exampleLists, DownloadFails]"
  obtain i where i: "run (new_CaptureInterface reading Global) ?acts = Some i"
    by (simp add: life_defs)
  have n: "\<not> (\<exists>pre ols mid c post.
           ?acts = pre @ OpcodesArrive ols # mid @ ConstantsArrive c # post \<and>
           list_all isPassive (pre @ mid @ post))"
  proof (intro notI, elim exE conjE)
    fix pre ols mid c post
    assume e: "?acts = pre @ OpcodesArrive ols # mid @ ConstantsArrive c # post"
    have "ConstantsArrive c \<in> set (pre @ OpcodesArrive ols # mid @ ConstantsArrive c # post)"
      by simp
    then have "ConstantsArrive c \<in> set ?acts" unfolding e[symmetric] .
    then show False by simp
  qed
  from ready_fires_once [of reading Global, THEN conjunct2, rule_format, OF i] n
  have "emitted i = [] \<and> delivered i = []" by blast
  with i have "\<exists>i. run (new_CaptureInterface reading Global) ?acts = Some i \<and>
        emitted i = [] \<and> delivered i = []" by blast
  with fires show ?thesis by (rule conjI)
qed

section \<open>Setting a region without opcodes\<close>

text \<open>
  C10. If \<open>setRegion\<close> is called with a region that none of the downloaded opcode lists is
  for, or before the lists have loaded, \<open>updateOpcodesCache\<close> stores \<open>undefined\<close> in
  \<open>_opcodes\<close>. Processing an IPC segment then throws and emits nothing; when the headers
  and the data of the segment have been read, what is thrown is the TypeError of the
  opcode lookup, and no message named \<open>"unknown"\<close> appears.
\<close>

theorem absent_region_breaks_lookup:
  assumes "\<forall>ols. m_opcodeLists this = Some ols \<longrightarrow> r \<notin> region ` set ols"
  shows "m_opcodes (setRegion r this) = None \<and>
         (\<forall>X remainder offset sh.
            parseSegmentHeader X (drop offset remainder) = Inr sh \<and>
            segmentType sh = SegmentType_Ipc X \<longrightarrow>
              (\<exists>e. processSegment X (setRegion r this) remainder offset = ([], Inl e)) \<and>
              (\<forall>ihd. readIpc X remainder offset sh = Inr ihd \<longrightarrow>
                 processSegment X (setRegion r this) remainder offset = ([], Inl TypeError)))"
proof -
  have none: "m_opcodes (setRegion r this) = None"
  proof (cases "m_opcodeLists this")
    case None
    then show ?thesis by (simp add: setRegion_def updateOpcodesCache_def)
  next
    case (Some ols)
    with assms have "find (\<lambda>ol. region ol = r) ols = None"
      by (auto simp: find_None_iff)
    with Some show ?thesis by (simp add: setRegion_def updateOpcodesCache_def)
  qed
  have turn: "(\<exists>e. processSegment X (setRegion r this) remainder offset = ([], Inl e)) \<and>
              (\<forall>ihd. readIpc X remainder offset sh = Inr ihd \<longrightarrow>
                 processSegment X (setRegion r this) remainder offset = ([], Inl TypeError))"
    if "parseSegmentHeader X (drop offset remainder) = Inr sh \<and> segmentType sh = SegmentType_Ipc X"
    for X remainder offset sh
  proof (cases "readIpc X remainder offset sh")
    case (Inl e)
    with that show ?thesis by (simp add: processSegment_def Let_def)
  next
    case (Inr ihd)
    obtain ih d where ihd: "ihd = (ih, d)" by (cases ihd)
    from readIpc_cases[of X remainder offset sh ih d] Inr ihd that
    obtain h where "ih = Some h" by auto
    with Inr ihd that none show ?thesis by (simp add: processSegment_def Let_def)
  qed
  from none turn show ?thesis by blast
qed

theorem absent_region_breaks_lookup_witness:
  "m_opcodeLists (exampleThis reading) = Some exampleLists \<and>
   Korean \<notin> region ` set exampleLists \<and>
   m_opcodes (setRegion Korean (exampleThis reading)) = None \<and>
   processSegment exampleX (setRegion Korean (exampleThis reading)) (ipcSegment @ []) 0 =
     ([], Inl TypeError) \<and>
   m_opcodeLists (capture (new_CaptureInterface reading Global)) = None \<and>
   m_opcodes (setRegion Chinese (capture (new_CaptureInterface reading Global))) = None"
proof -
  have l: "m_opcodeLists (exampleThis reading) = Some exampleLists"
    by (simp add: exampleThis_def)
  have k: "Korean \<notin> region ` set exampleLists"
    by (simp add: exampleLists_def)
  have a: "\<forall>ols. m_opcodeLists (exampleThis reading) = Some ols \<longrightarrow> Korean \<notin> region ` set ols"
    using l k by simp
  from absent_region_breaks_lookup [OF a] example_parse_ipc(1)[of "[]"] example_readIpc(1)[of "[]"]
    example_type(1)
  have absent: "m_opcodes (setRegion Korean (exampleThis reading)) = None \<and>
        processSegment exampleX (setRegion Korean (exampleThis reading)) (ipcSegment @ []) 0 =
          ([], Inl TypeError)"
    by blast
  have n: "m_opcodeLists (capture (new_CaptureInterface reading Global)) = None"
    by (simp add: new_CaptureInterface_def)
  then have "\<forall>ols. m_opcodeLists (capture (new_CaptureInterface reading Global)) = Some ols \<longrightarrow>
               Chinese \<notin> region ` set ols"
    by simp
  from absent_region_breaks_lookup [OF this]
  have early: "m_opcodes (setRegion Chinese (capture (new_CaptureInterface reading Global))) = None"
    by blast
  from l k absent n early show ?thesis by blast
qed

end
